theory Spec2Isabelle
  imports Complex_Main "HOL-Library.Sublist"
begin

section \<open>Values of the benchmark script\<close>

text \<open>
  A \<open>Buffer\<close> is a sequence of bytes; its \<open>length\<close> is the number of bytes.
  JavaScript numbers that hold byte counts are natural numbers, levels are integers.
  The quotient \<open>compressedSize / originalSize\<close> is kept as the exact rational quotient
  (the script stores the double nearest to it); a zero divisor gives \<open>Infinity\<close> or
  \<open>NaN\<close> as in JavaScript, never an exception.
\<close>

type_synonym buffer = string

datatype js_number = Finite rat | Infinity | NaN

definition js_divide :: "nat \<Rightarrow> nat \<Rightarrow> js_number" where
  "js_divide a b =
     (if b = 0 then (if a = 0 then NaN else Infinity)
      else Finite (rat_of_nat a / rat_of_nat b))"


text \<open>
  Everything the script can throw. \<open>Error m\<close> is \<open>new Error(m)\<close>; the other
  constructors are the exceptions of the runtime and of the external collaborators
  (module resolution, the codecs, the chart renderer, the filesystem).
\<close>

datatype error =
    Error string
  | TypeError
  | ModuleNotFound string
  | CompressionError string
  | RenderError string
  | FsError string string

datatype console_arg = Text string | Thrown error

record measurement =
  level :: int
  time :: rat
  size_m :: nat
  ratio :: js_number

record algorithm =
  name :: string
  levels :: "int list"
  compress :: "buffer \<Rightarrow> int \<Rightarrow> error + buffer"

record algorithm_result =
  result_name :: string
  measurements :: "measurement list"

record file_result =
  fr_id :: string
  fr_displayName :: string
  fr_originalSize :: nat
  fr_algorithms :: "algorithm_result list"

text \<open>The entry pushed onto \<open>results\<close>: \<open>{ ...fileResult, chartPath }\<close>.\<close>

record run_entry =
  re_id :: string
  re_displayName :: string
  re_originalSize :: nat
  re_algorithms :: "algorithm_result list"
  chartPath :: string

record dataset =
  label :: string
  data :: "(int \<times> js_number) list"

record chart_configuration =
  datasets :: "dataset list"
  title_text :: string

section \<open>The host: Node.js built-ins the script calls\<close>

text \<open>
  The built-ins are parameters of the model: path arithmetic, module resolution, the
  three codecs of \<open>zlib\<close>, the clock, the chart renderer, number formatting and the
  date. \<open>performance_now n\<close> is the reading of the \<open>n\<close>-th call of
  \<open>performance.now()\<close>. \<open>write_error p\<close> is what a write to \<open>p\<close> throws, if anything.
\<close>

record host =
  path_join :: "string list \<Rightarrow> string"
  path_dirname :: "string \<Rightarrow> string"
  path_relative :: "string \<Rightarrow> string \<Rightarrow> string"
  require_resolve :: "string \<Rightarrow> string \<Rightarrow> error + string"
  repoRoot :: string
  has_zstd :: bool
  verbose :: bool
  gzipSync :: "buffer \<Rightarrow> int \<Rightarrow> error + buffer"
  brotliCompressSync :: "buffer \<Rightarrow> int \<Rightarrow> error + buffer"
  zstdCompressSync :: "buffer \<Rightarrow> int \<Rightarrow> error + buffer"
  performance_now :: "nat \<Rightarrow> rat"
  renderToBufferSync :: "chart_configuration \<Rightarrow> error + string"
  toFixed :: "js_number \<Rightarrow> nat \<Rightarrow> string"
  date_toISOString :: string
  write_error :: "string \<Rightarrow> error option"

datatype fs_node = Dir | File string

record world =
  fs :: "string \<Rightarrow> fs_node option"
  ticks :: nat
  stdout :: "string list"
  stderr :: "console_arg list"
  exitCode :: nat

definition chartsDir :: "host \<Rightarrow> string" where
  "chartsDir h = path_join h [repoRoot h, ''charts'']"

definition existsSync :: "world \<Rightarrow> string \<Rightarrow> bool" where
  "existsSync w p = (fs w p \<noteq> None)"

definition readFileSync :: "world \<Rightarrow> string \<Rightarrow> error + buffer" where
  "readFileSync w p =
     (case fs w p of
        None \<Rightarrow> Inl (FsError ''ENOENT'' p)
      | Some Dir \<Rightarrow> Inl (FsError ''EISDIR'' p)
      | Some (File content) \<Rightarrow> Inr content)"

definition writeFileSync :: "host \<Rightarrow> string \<Rightarrow> string \<Rightarrow> world \<Rightarrow> error + world" where
  "writeFileSync h p content w =
     (case write_error h p of
        Some e \<Rightarrow> Inl e
      | None \<Rightarrow> Inr (w\<lparr>fs := (fs w)(p \<mapsto> File content)\<rparr>))"

definition mkdirSync :: "host \<Rightarrow> string \<Rightarrow> world \<Rightarrow> error + world" where
  "mkdirSync h p w =
     (case write_error h p of
        Some e \<Rightarrow> Inl e
      | None \<Rightarrow> Inr (w\<lparr>fs := (fs w)(p \<mapsto> Dir)\<rparr>))"

definition console_log :: "string \<Rightarrow> world \<Rightarrow> world" where
  "console_log s w = w\<lparr>stdout := stdout w @ [s]\<rparr>"

definition console_error :: "console_arg \<Rightarrow> world \<Rightarrow> world" where
  "console_error a w = w\<lparr>stderr := stderr w @ [a]\<rparr>"

definition now :: "host \<Rightarrow> world \<Rightarrow> rat \<times> world" where
  "now h w = (performance_now h (ticks w), w\<lparr>ticks := Suc (ticks w)\<rparr>)"

section \<open>Strings\<close>

fun join :: "string \<Rightarrow> string list \<Rightarrow> string" where
  "join sep [] = []"
| "join sep [x] = x"
| "join sep (x # y # ys) = x @ sep @ join sep (y # ys)"

function show_nat :: "nat \<Rightarrow> string" where
  "show_nat n =
     (if n < 10 then [''0123456789'' ! n]
      else show_nat (n div 10) @ [''0123456789'' ! (n mod 10)])"
  by pat_completeness auto
termination
  by (relation "measure (\<lambda>n. n)") auto

declare show_nat.simps [simp del]

definition show_int :: "int \<Rightarrow> string" where
  "show_int i = (if i < 0 then CHR ''-'' # show_nat (nat (- i)) else show_nat (nat i))"

section \<open>The algorithm registry\<close>

text \<open>
  \<open>Array.from({ length: n }, (_, index) => f index)\<close> is \<open>map f [0..<n]\<close>.
\<close>

definition algorithms :: "host \<Rightarrow> algorithm list" where
  "algorithms h =
     [\<lparr>name = ''gzip'',
       levels = map (\<lambda>index. int index + 1) [0..<9],
       compress = gzipSync h\<rparr>,
      \<lparr>name = ''brotli'',
       levels = map (\<lambda>index. int index) [0..<12],
       compress = brotliCompressSync h\<rparr>,
      \<lparr>name = ''zstd'',
       levels = map (\<lambda>index. int index + 1) [0..<22],
       compress = zstdCompressSync h\<rparr>]"

section \<open>The sweep\<close>

text \<open>
  The inner loop of \<open>main\<close>: one timed \<open>compress\<close> call per level, each measurement
  pushed onto \<open>measurements\<close>. A throwing codec ends the loop with its error.
\<close>

fun sweep_levels ::
  "host \<Rightarrow> algorithm \<Rightarrow> buffer \<Rightarrow> nat \<Rightarrow> int list \<Rightarrow> measurement list \<Rightarrow> world
    \<Rightarrow> (error + measurement list) \<times> world" where
  "sweep_levels h alg originalBuffer origSize [] ms w = (Inr ms, w)"
| "sweep_levels h alg originalBuffer origSize (lvl # rest) ms w =
     (case now h w of (start, w1) \<Rightarrow>
      (case compress alg originalBuffer lvl of
         Inl e \<Rightarrow> (Inl e, w1)
       | Inr compressed \<Rightarrow>
          (case now h w1 of (end, w2) \<Rightarrow>
            (let compressedSize = length compressed;
                 durationMs = end - start
             in sweep_levels h alg originalBuffer origSize rest
                  (ms @
                    [\<lparr>level = lvl, time = durationMs, size_m = compressedSize,
                      ratio = js_divide compressedSize origSize\<rparr>])
                  w2))))"

text \<open>The loop over the registry, pushing one \<open>{ name, measurements }\<close> per algorithm.\<close>

fun sweep_algorithms ::
  "host \<Rightarrow> buffer \<Rightarrow> nat \<Rightarrow> algorithm list \<Rightarrow> algorithm_result list \<Rightarrow> world
    \<Rightarrow> (error + algorithm_result list) \<times> world" where
  "sweep_algorithms h originalBuffer origSize [] algorithmResults w =
     (Inr algorithmResults, w)"
| "sweep_algorithms h originalBuffer origSize (alg # rest) algorithmResults w =
     (case sweep_levels h alg originalBuffer origSize (levels alg) [] w of
        (Inl e, w1) \<Rightarrow> (Inl e, w1)
      | (Inr ms, w1) \<Rightarrow>
          sweep_algorithms h originalBuffer origSize rest
            (algorithmResults @ [\<lparr>result_name = name alg, measurements = ms\<rparr>])
            (if verbose h
             then console_log (''  Completed '' @ name alg @ '' levels (''
                    @ show_nat (length ms) @ '' variants)'') w1
             else w1))"

section \<open>Resolving the artifacts\<close>

text \<open>
  The argument of \<open>createPackageFile\<close>: \<open>displayName\<close>, \<open>pathSegments\<close> and
  \<open>candidates\<close> may be absent; an entry of \<open>candidates\<close> may be falsy (\<open>None\<close>) and is
  then dropped by \<open>.filter(Boolean)\<close>.
\<close>

record candidate =
  pathSegments :: "string list"
  displayName :: "string option"

record package_file_spec =
  spec_id :: string
  spec_displayName :: "string option"
  packageName :: string
  spec_pathSegments :: "string list option"
  candidates :: "candidate option list option"

record named_candidate =
  nc_pathSegments :: "string list"
  nc_displayName :: string

record package_file =
  file_id :: string
  file_displayName :: string
  absolutePath :: string
  relativePath :: string

definition resolvePackageFile :: "host \<Rightarrow> string \<Rightarrow> string list \<Rightarrow> error + string" where
  "resolvePackageFile h pkg segs =
     (case require_resolve h (path_join h [pkg, ''package.json'']) (repoRoot h) of
        Inl e \<Rightarrow> Inl e
      | Inr packageJsonPath \<Rightarrow> Inr (path_join h (path_dirname h packageJsonPath # segs)))"

text \<open>
  The \<open>.map\<close> that fills in the display name: the candidate's own, or else the package
  name and the path segments joined by slashes.
\<close>

definition name_candidate :: "string \<Rightarrow> candidate \<Rightarrow> named_candidate" where
  "name_candidate pkg c =
     \<lparr>nc_pathSegments = pathSegments c,
      nc_displayName =
        (case displayName c of
           Some d \<Rightarrow> d
         | None \<Rightarrow> pkg @ ''/'' @ join ''/'' (pathSegments c))\<rparr>"

text \<open>
  \<open>candidates ?? [{ pathSegments, displayName }]\<close>, filtered and named. Without
  \<open>candidates\<close> and without \<open>pathSegments\<close> the script throws a \<open>TypeError\<close> (at
  \<open>.join\<close> of \<open>undefined\<close>, or at the spread of \<open>undefined\<close>) before it looks at any path.
\<close>

definition candidateList :: "package_file_spec \<Rightarrow> error + named_candidate list" where
  "candidateList spec =
     (case candidates spec of
        Some cs \<Rightarrow> Inr (map (name_candidate (packageName spec)) (List.map_filter (\<lambda>c. c) cs))
      | None \<Rightarrow>
         (case spec_pathSegments spec of
            None \<Rightarrow> Inl TypeError
          | Some segs \<Rightarrow>
             Inr [name_candidate (packageName spec)
                    \<lparr>pathSegments = segs, displayName = spec_displayName spec\<rparr>]))"

text \<open>The \<open>for (const candidate of candidateList)\<close> loop; \<open>None\<close> when it falls through.\<close>

fun try_candidates ::
  "host \<Rightarrow> world \<Rightarrow> string \<Rightarrow> string \<Rightarrow> named_candidate list \<Rightarrow> error + package_file option" where
  "try_candidates h w ident pkg [] = Inr None"
| "try_candidates h w ident pkg (c # cs) =
     (case resolvePackageFile h pkg (nc_pathSegments c) of
        Inl e \<Rightarrow> Inl e
      | Inr path \<Rightarrow>
         if existsSync w path
         then Inr (Some \<lparr>file_id = ident, file_displayName = nc_displayName c,
                absolutePath = path,
                relativePath = path_relative h (repoRoot h) path\<rparr>)
         else try_candidates h w ident pkg cs)"

definition attempted :: "host \<Rightarrow> string \<Rightarrow> named_candidate list \<Rightarrow> string list" where
  "attempted h pkg cs = map (\<lambda>c. path_join h (pkg # nc_pathSegments c)) cs"

definition not_found_message :: "string \<Rightarrow> string list \<Rightarrow> string" where
  "not_found_message pkg tried =
     ''Required file not found for '' @ pkg @ ''. Tried: '' @ join '', '' tried"

definition createPackageFile :: "host \<Rightarrow> world \<Rightarrow> package_file_spec \<Rightarrow> error + package_file" where
  "createPackageFile h w spec =
     (case candidateList spec of
        Inl e \<Rightarrow> Inl e
      | Inr cs \<Rightarrow>
         (case try_candidates h w (spec_id spec) (packageName spec) cs of
            Inl e \<Rightarrow> Inl e
          | Inr (Some file) \<Rightarrow> Inr file
          | Inr None \<Rightarrow>
              Inl (Error (not_found_message (packageName spec)
                     (attempted h (packageName spec) cs)))))"

text \<open>The array literal \<open>files\<close>: its elements are evaluated in order, the first throw ends it.\<close>

fun create_files :: "host \<Rightarrow> world \<Rightarrow> package_file_spec list \<Rightarrow> error + package_file list" where
  "create_files h w [] = Inr []"
| "create_files h w (spec # specs) =
     (case createPackageFile h w spec of
        Inl e \<Rightarrow> Inl e
      | Inr file \<Rightarrow>
         (case create_files h w specs of
            Inl e \<Rightarrow> Inl e
          | Inr rest \<Rightarrow> Inr (file # rest)))"

definition plain_spec :: "string \<Rightarrow> string \<Rightarrow> string \<Rightarrow> string list \<Rightarrow> package_file_spec" where
  "plain_spec ident dn pkg segs =
     \<lparr>spec_id = ident, spec_displayName = Some dn, packageName = pkg,
      spec_pathSegments = Some segs, candidates = None\<rparr>"

definition file_specs :: "package_file_spec list" where
  "file_specs =
     [plain_spec ''jquery'' ''jquery/dist/jquery.min.js'' ''jquery'' [''dist'', ''jquery.min.js''],
      \<lparr>spec_id = ''noto-sans-jp'',
       spec_displayName = Some ''@expo-google-fonts/noto-sans-jp/NotoSansJP_400Regular.ttf'',
       packageName = ''@expo-google-fonts/noto-sans-jp'',
       spec_pathSegments = None,
       candidates = Some
         [Some \<lparr>pathSegments = [''400Regular'', ''NotoSansJP_400Regular.ttf''], displayName = None\<rparr>,
          Some \<lparr>pathSegments = [''NotoSansJP_400Regular.ttf''], displayName = None\<rparr>]\<rparr>,
      plain_spec ''react'' ''react/umd/react.production.min.js'' ''react''
        [''umd'', ''react.production.min.js''],
      plain_spec ''moment'' ''moment/min/moment.min.js'' ''moment'' [''min'', ''moment.min.js''],
      plain_spec ''vue'' ''vue/dist/vue.global.prod.js'' ''vue'' [''dist'', ''vue.global.prod.js''],
      plain_spec ''lodash'' ''lodash/lodash.min.js'' ''lodash'' [''lodash.min.js''],
      plain_spec ''normalize-css'' ''normalize.css/normalize.css'' ''normalize.css''
        [''normalize.css''],
      plain_spec ''bootstrap'' ''bootstrap/dist/css/bootstrap.min.css'' ''bootstrap''
        [''dist'', ''css'', ''bootstrap.min.css''],
      \<lparr>spec_id = ''tailwind-config'',
       spec_displayName = None,
       packageName = ''tailwindcss'',
       spec_pathSegments = None,
       candidates = Some
         [Some \<lparr>pathSegments = [''stubs'', ''config.full.js''],
                displayName = Some ''tailwindcss/stubs/config.full.js''\<rparr>,
          Some \<lparr>pathSegments = [''theme.css''], displayName = Some ''tailwindcss/theme.css''\<rparr>,
          Some \<lparr>pathSegments = [''index.css''], displayName = Some ''tailwindcss/index.css''\<rparr>,
          Some \<lparr>pathSegments = [''utilities.css''],
                displayName = Some ''tailwindcss/utilities.css''\<rparr>]\<rparr>]"

section \<open>Charts and the report\<close>

text \<open>
  \<open>toUpperCase\<close>, \<open>toLowerCase\<close> and the two \<open>replace\<close> calls of \<open>slugify\<close>, on ASCII
  text (the declared names are ASCII).
\<close>

definition toUpperCase :: "string \<Rightarrow> string" where
  "toUpperCase s =
     map (\<lambda>c. case map_of (zip ''abcdefghijklmnopqrstuvwxyz'' ''ABCDEFGHIJKLMNOPQRSTUVWXYZ'') c of
                 Some u \<Rightarrow> u | None \<Rightarrow> c) s"

definition toLowerCase :: "string \<Rightarrow> string" where
  "toLowerCase s =
     map (\<lambda>c. case map_of (zip ''ABCDEFGHIJKLMNOPQRSTUVWXYZ'' ''abcdefghijklmnopqrstuvwxyz'') c of
                 Some l \<Rightarrow> l | None \<Rightarrow> c) s"

definition slug_char :: "char \<Rightarrow> bool" where
  "slug_char c = (c \<in> set ''abcdefghijklmnopqrstuvwxyz0123456789'')"

function replace_runs :: "string \<Rightarrow> string" where
  "replace_runs [] = []"
| "replace_runs (c # cs) =
     (if slug_char c then c # replace_runs cs
      else CHR ''-'' # replace_runs (dropWhile (\<lambda>d. \<not> slug_char d) cs))"
  by pat_completeness auto
termination
  by (relation "measure length") (auto simp: le_imp_less_Suc length_dropWhile_le)

definition trim_dashes :: "string \<Rightarrow> string" where
  "trim_dashes s =
     rev (dropWhile (\<lambda>c. c = CHR ''-'') (rev (dropWhile (\<lambda>c. c = CHR ''-'') s)))"

definition slugify :: "string \<Rightarrow> string" where
  "slugify v = trim_dashes (replace_runs (toLowerCase v))"

definition formatNumber :: "host \<Rightarrow> js_number \<Rightarrow> nat \<Rightarrow> string" where
  "formatNumber h v fractionDigits = toFixed h v fractionDigits"

text \<open>
  \<open>generateChart\<close> builds the chart description (one dataset per algorithm, one point per
  measurement) and hands it to the renderer; the fixed styling options are left out.
\<close>

definition generateChart :: "host \<Rightarrow> file_result \<Rightarrow> error + string" where
  "generateChart h fileResult =
     renderToBufferSync h
       \<lparr>datasets =
          map (\<lambda>a. \<lparr>label = toUpperCase (result_name a),
                     data = map (\<lambda>m. (level m, ratio m)) (measurements a)\<rparr>)
            (fr_algorithms fileResult),
        title_text = fr_displayName fileResult @ '' Compression Ratio''\<rparr>"

definition ensureFile :: "world \<Rightarrow> string \<Rightarrow> error + unit" where
  "ensureFile w filePath =
     (if \<not> existsSync w filePath then Inl (Error (''Required file not found: '' @ filePath))
      else Inr ())"

definition table_row :: "host \<Rightarrow> algorithm_result \<Rightarrow> measurement \<Rightarrow> string" where
  "table_row h a m =
     ''| '' @ result_name a @ '' | '' @ show_int (level m) @ '' | ''
       @ formatNumber h (Finite (time m)) 3 @ '' | '' @ show_nat (size_m m) @ '' | ''
       @ formatNumber h (ratio m) 4 @ '' |''"

definition section_lines :: "host \<Rightarrow> run_entry \<Rightarrow> string list" where
  "section_lines h r =
     [''## '' @ re_displayName r,
      [],
      ''- Original size: '' @ show_nat (re_originalSize r) @ '' bytes'',
      ''- Chart: ![Compression ratio chart for '' @ re_displayName r @ ''](''
         @ chartPath r @ '')'',
      [],
      ''| Algorithm | Level | Time (ms) | Size (bytes) | Compression Ratio |'',
      ''| --- | --- | --- | --- | --- |'']
     @ concat (map (\<lambda>a. map (table_row h a) (measurements a)) (re_algorithms r))
     @ [[]]"

definition readme_intro :: string where
  "readme_intro = ''This benchmark measures compression time, output size, and compression ratios for several popular npm packages across all gzip, Brotli, and Zstandard compression levels.''"

definition readmeLines :: "host \<Rightarrow> run_entry list \<Rightarrow> string list" where
  "readmeLines h results =
     [''# Node Compression Benchmark'',
      [],
      ''Last updated: '' @ date_toISOString h,
      [],
      readme_intro,
      []]
     @ concat (map (section_lines h) results)"

section \<open>The driver\<close>

text \<open>The verbose note at the start of an artifact, with its original size \<open>n\<close>.\<close>

definition announced :: "host \<Rightarrow> package_file \<Rightarrow> nat \<Rightarrow> world \<Rightarrow> world" where
  "announced h file n w =
     (if verbose h
      then console_log (''Processing '' @ file_displayName file @ '' ('' @ show_nat n
             @ '' bytes)'') w
      else w)"

text \<open>The body of \<open>for (const file of files)\<close>, up to the finished \<open>fileResult\<close>.\<close>

definition measure_file ::
  "host \<Rightarrow> algorithm list \<Rightarrow> package_file \<Rightarrow> world \<Rightarrow> (error + file_result) \<times> world" where
  "measure_file h registry file w =
     (case ensureFile w (absolutePath file) of
        Inl e \<Rightarrow> (Inl e, w)
      | Inr _ \<Rightarrow>
         (case readFileSync w (absolutePath file) of
            Inl e \<Rightarrow> (Inl e, w)
          | Inr originalBuffer \<Rightarrow>
             (let origSize = length originalBuffer;
                  w1 = announced h file origSize w
              in case sweep_algorithms h originalBuffer origSize registry [] w1 of
                   (Inl e, w2) \<Rightarrow> (Inl e, w2)
                 | (Inr algorithmResults, w2) \<Rightarrow>
                     (Inr \<lparr>fr_id = file_id file, fr_displayName = file_displayName file,
                           fr_originalSize = origSize, fr_algorithms = algorithmResults\<rparr>,
                      if verbose h then console_log ''  Generating chart'' w2 else w2))))"

text \<open>The rest of the loop body: render the chart, write it, push the entry.\<close>

definition chart_file ::
  "host \<Rightarrow> package_file \<Rightarrow> file_result \<Rightarrow> world \<Rightarrow> (error + run_entry) \<times> world" where
  "chart_file h file fileResult w =
     (case generateChart h fileResult of
        Inl e \<Rightarrow>
          (Inl e,
           console_error (Text (''  Failed to generate chart for '' @ file_displayName file)) w)
      | Inr chartSvg \<Rightarrow>
         (let path = path_join h [chartsDir h, slugify (file_displayName file) @ ''.svg'']
          in case writeFileSync h path chartSvg w of
               Inl e \<Rightarrow> (Inl e, w)
             | Inr w1 \<Rightarrow>
                 (Inr \<lparr>re_id = fr_id fileResult, re_displayName = fr_displayName fileResult,
                       re_originalSize = fr_originalSize fileResult,
                       re_algorithms = fr_algorithms fileResult,
                       chartPath = path_relative h (repoRoot h) path\<rparr>,
                  if verbose h then console_log (''  Saved chart to '' @ path) w1 else w1)))"

definition process_file ::
  "host \<Rightarrow> algorithm list \<Rightarrow> package_file \<Rightarrow> world \<Rightarrow> (error + run_entry) \<times> world" where
  "process_file h registry file w =
     (case measure_file h registry file w of
        (Inl e, w1) \<Rightarrow> (Inl e, w1)
      | (Inr fileResult, w1) \<Rightarrow> chart_file h file fileResult w1)"

fun process_files ::
  "host \<Rightarrow> algorithm list \<Rightarrow> package_file list \<Rightarrow> run_entry list \<Rightarrow> world
    \<Rightarrow> (error + run_entry list) \<times> world" where
  "process_files h registry [] results w = (Inr results, w)"
| "process_files h registry (file # rest) results w =
     (case process_file h registry file w of
        (Inl e, w1) \<Rightarrow> (Inl e, w1)
      | (Inr entry, w1) \<Rightarrow> process_files h registry rest (results @ [entry]) w1)"

definition readme_path :: "host \<Rightarrow> string" where
  "readme_path h = path_join h [repoRoot h, ''README.md'']"

text \<open>The first statement of \<open>main\<close>: create the charts directory unless it exists.\<close>

definition ensure_chartsDir :: "host \<Rightarrow> world \<Rightarrow> error + world" where
  "ensure_chartsDir h w =
     (if \<not> existsSync w (chartsDir h) then mkdirSync h (chartsDir h) w else Inr w)"

definition main ::
  "host \<Rightarrow> algorithm list \<Rightarrow> package_file list \<Rightarrow> world \<Rightarrow> (error + unit) \<times> world" where
  "main h registry files w =
     (case ensure_chartsDir h w of
        Inl e \<Rightarrow> (Inl e, w)
      | Inr w0 \<Rightarrow>
         (case process_files h registry files [] w0 of
            (Inl e, w1) \<Rightarrow> (Inl e, w1)
          | (Inr results, w1) \<Rightarrow>
             (case writeFileSync h (readme_path h) (join [CHR 0x0A] (readmeLines h results)) w1 of
                Inl e \<Rightarrow> (Inl e, w1)
              | Inr w2 \<Rightarrow> (Inr (), w2))))"

text \<open>
  The module from top to bottom: the Zstandard check, the \<open>files\<close> literal, then
  \<open>main().catch(...)\<close>, which prints the error and sets \<open>process.exitCode = 1\<close>. An
  exception thrown while the module loads is uncaught: Node.js prints it and exits with
  status 1.
\<close>

definition uncaught :: "error \<Rightarrow> world \<Rightarrow> world" where
  "uncaught e w = (console_error (Thrown e) w)\<lparr>exitCode := 1\<rparr>"

definition run :: "host \<Rightarrow> algorithm list \<Rightarrow> package_file_spec list \<Rightarrow> world \<Rightarrow> world" where
  "run h registry specs w =
     (if \<not> has_zstd h
      then uncaught (Error ''Zstandard compression requires Node.js v22 or later.'') w
      else case create_files h w specs of
             Inl e \<Rightarrow> uncaught e w
           | Inr files \<Rightarrow>
              (case main h registry files w of
                 (Inl e, w1) \<Rightarrow> (console_error (Thrown e) w1)\<lparr>exitCode := 1\<rparr>
               | (Inr _, w1) \<Rightarrow> w1))"

definition benchmark :: "host \<Rightarrow> world \<Rightarrow> world" where
  "benchmark h w = run h (algorithms h) file_specs w"

section \<open>The superseded script\<close>

text \<open>
  \<open>scripts/benchmark.js\<close> is the earlier variant of the script: it names its input files by
  fixed relative paths, and carries its own copy of the registry and of the two sweep
  loops, modelled here from that file.
\<close>

definition algorithms_superseded :: "host \<Rightarrow> algorithm list" where
  "algorithms_superseded h =
     [\<lparr>name = ''gzip'',
       levels = map (\<lambda>index. int index + 1) [0..<9],
       compress = gzipSync h\<rparr>,
      \<lparr>name = ''brotli'',
       levels = map (\<lambda>index. int index) [0..<12],
       compress = brotliCompressSync h\<rparr>,
      \<lparr>name = ''zstd'',
       levels = map (\<lambda>index. int index + 1) [0..<22],
       compress = zstdCompressSync h\<rparr>]"

fun sweep_levels_superseded ::
  "host \<Rightarrow> algorithm \<Rightarrow> buffer \<Rightarrow> nat \<Rightarrow> int list \<Rightarrow> measurement list \<Rightarrow> world
    \<Rightarrow> (error + measurement list) \<times> world" where
  "sweep_levels_superseded h alg originalBuffer origSize [] ms w = (Inr ms, w)"
| "sweep_levels_superseded h alg originalBuffer origSize (lvl # rest) ms w =
     (case now h w of (start, w1) \<Rightarrow>
      (case compress alg originalBuffer lvl of
         Inl e \<Rightarrow> (Inl e, w1)
       | Inr compressed \<Rightarrow>
          (case now h w1 of (end, w2) \<Rightarrow>
            (let compressedSize = length compressed;
                 durationMs = end - start
             in sweep_levels_superseded h alg originalBuffer origSize rest
                  (ms @
                    [\<lparr>level = lvl, time = durationMs, size_m = compressedSize,
                      ratio = js_divide compressedSize origSize\<rparr>])
                  w2))))"

fun sweep_algorithms_superseded ::
  "host \<Rightarrow> buffer \<Rightarrow> nat \<Rightarrow> algorithm list \<Rightarrow> algorithm_result list \<Rightarrow> world
    \<Rightarrow> (error + algorithm_result list) \<times> world" where
  "sweep_algorithms_superseded h originalBuffer origSize [] algorithmResults w =
     (Inr algorithmResults, w)"
| "sweep_algorithms_superseded h originalBuffer origSize (alg # rest) algorithmResults w =
     (case sweep_levels_superseded h alg originalBuffer origSize (levels alg) [] w of
        (Inl e, w1) \<Rightarrow> (Inl e, w1)
      | (Inr ms, w1) \<Rightarrow>
          sweep_algorithms_superseded h originalBuffer origSize rest
            (algorithmResults @ [\<lparr>result_name = name alg, measurements = ms\<rparr>])
            (if verbose h
             then console_log (''  Completed '' @ name alg @ '' levels (''
                    @ show_nat (length ms) @ '' variants)'') w1
             else w1))"

section \<open>Vocabulary of the properties\<close>

text \<open>A measurement, a result, an entry without its timing.\<close>

definition untimed :: "measurement \<Rightarrow> int \<times> nat \<times> js_number" where
  "untimed m = (level m, size_m m, ratio m)"

definition untimed_result :: "algorithm_result \<Rightarrow> string \<times> (int \<times> nat \<times> js_number) list" where
  "untimed_result r = (result_name r, map untimed (measurements r))"

definition untimed_file ::
  "file_result \<Rightarrow> string \<times> string \<times> nat \<times> (string \<times> (int \<times> nat \<times> js_number) list) list" where
  "untimed_file fr =
     (fr_id fr, fr_displayName fr, fr_originalSize fr, map untimed_result (fr_algorithms fr))"

definition untimed_entry ::
  "run_entry \<Rightarrow> (string \<times> string \<times> nat \<times> (string \<times> (int \<times> nat \<times> js_number) list) list) \<times> string" where
  "untimed_entry r =
     ((re_id r, re_displayName r, re_originalSize r, map untimed_result (re_algorithms r)),
      chartPath r)"

text \<open>
  What the sweep of one algorithm, and of a registry, comes to without the clock: level,
  output size and ratio per level in declared order, or the first codec error.
\<close>

fun expected_levels ::
  "algorithm \<Rightarrow> buffer \<Rightarrow> nat \<Rightarrow> int list \<Rightarrow> error + (int \<times> nat \<times> js_number) list" where
  "expected_levels a buf n [] = Inr []"
| "expected_levels a buf n (l # ls) =
     (case compress a buf l of
        Inl e \<Rightarrow> Inl e
      | Inr c \<Rightarrow>
         (case expected_levels a buf n ls of
            Inl e \<Rightarrow> Inl e
          | Inr rest \<Rightarrow> Inr ((l, length c, js_divide (length c) n) # rest)))"

fun expected_results ::
  "buffer \<Rightarrow> nat \<Rightarrow> algorithm list
    \<Rightarrow> error + (string \<times> (int \<times> nat \<times> js_number) list) list" where
  "expected_results buf n [] = Inr []"
| "expected_results buf n (a # reg) =
     (case expected_levels a buf n (levels a) of
        Inl e \<Rightarrow> Inl e
      | Inr ms \<Rightarrow>
         (case expected_results buf n reg of
            Inl e \<Rightarrow> Inl e
          | Inr rest \<Rightarrow> Inr ((name a, ms) # rest)))"

text \<open>One algorithm's result against its declaration.\<close>

definition swept_as_declared :: "algorithm \<Rightarrow> algorithm_result \<Rightarrow> bool" where
  "swept_as_declared a r =
     (result_name r = name a \<and>
      map level (measurements r) = levels a \<and>
      length (measurements r) = length (levels a) \<and>
      distinct (map level (measurements r)) \<and>
      sorted_wrt (<) (map level (measurements r)))"



text \<open>
  The absolute paths \<open>createPackageFile\<close> may test for an artifact: the package root
  joined with the segments of each candidate.
\<close>

definition candidate_paths :: "host \<Rightarrow> package_file_spec \<Rightarrow> string list" where
  "candidate_paths h spec =
     (case candidateList spec of
        Inl e \<Rightarrow> []
      | Inr cs \<Rightarrow>
         (case require_resolve h (path_join h [packageName spec, ''package.json'']) (repoRoot h) of
            Inl e \<Rightarrow> []
          | Inr pj \<Rightarrow> map (\<lambda>c. path_join h (path_dirname h pj # nc_pathSegments c)) cs))"

text \<open>The dataset of the chart that belongs to an untimed result.\<close>

definition dataset_of :: "string \<times> (int \<times> nat \<times> js_number) list \<Rightarrow> dataset" where
  "dataset_of r =
     \<lparr>label = toUpperCase (fst r), data = map (\<lambda>m. (fst m, snd (snd m))) (snd r)\<rparr>"

definition is_section_heading :: "string \<Rightarrow> bool" where
  "is_section_heading l = (take 3 l = ''## '')"

section \<open>An example environment\<close>

text \<open>
  A small host and filesystem on which the definitions can be run: paths joined by
  slashes, packages under \<open>/r/node_modules\<close>, codecs that keep a prefix of the input.
\<close>

definition example_host :: host where
  "example_host =
     \<lparr>path_join = join ''/'',
      path_dirname = (\<lambda>p. rev (tl (dropWhile (\<lambda>c. c \<noteq> CHR ''/'') (rev p)))),
      path_relative = (\<lambda>from to. drop (Suc (length from)) to),
      require_resolve = (\<lambda>request root. Inr (root @ ''/node_modules/'' @ request)),
      repoRoot = ''/r'',
      has_zstd = True,
      verbose = True,
      gzipSync = (\<lambda>buf l. Inr (take 3 buf)),
      brotliCompressSync = (\<lambda>buf l. Inr (take 2 buf)),
      zstdCompressSync = (\<lambda>buf l. Inr (take 1 buf)),
      performance_now = (\<lambda>n. rat_of_nat n),
      renderToBufferSync = (\<lambda>cfg. Inr ''<svg/>''),
      toFixed = (\<lambda>v d. ''0.0''),
      date_toISOString = ''2025-01-01T00:00:00.000Z'',
      write_error = (\<lambda>p. None)\<rparr>"

definition example_world :: world where
  "example_world =
     \<lparr>fs = [''/r/node_modules/a/x.js'' \<mapsto> File ''abcdefgh'',
            ''/r/node_modules/b/new.css'' \<mapsto> File ''abcd''],
      ticks = 0, stdout = [], stderr = [], exitCode = 0\<rparr>"

text \<open>A stub algorithm with levels 1, 2, 3 and outputs of 500, 400 and 300 bytes.\<close>

definition stub_algorithm :: algorithm where
  "stub_algorithm =
     \<lparr>name = ''stub'',
      levels = [1, 2, 3],
      compress = (\<lambda>buf l. Inr (replicate (if l = 1 then 500 else if l = 2 then 400 else 300)
                                  (CHR ''z'')))\<rparr>"


definition short_algorithm :: algorithm where
  "short_algorithm =
     \<lparr>name = ''short'', levels = [1, 2], compress = (\<lambda>buf l. Inr (take (nat l) buf))\<rparr>"

definition spec_a :: package_file_spec where
  "spec_a = plain_spec ''a'' ''a/x.js'' ''a'' [''x.js'']"

definition spec_b :: package_file_spec where
  "spec_b =
     \<lparr>spec_id = ''b'', spec_displayName = None, packageName = ''b'',
      spec_pathSegments = None,
      candidates = Some
        [Some \<lparr>pathSegments = [''old.css''], displayName = Some ''b (old)''\<rparr>,
         Some \<lparr>pathSegments = [''new.css''], displayName = None\<rparr>]\<rparr>"

definition spec_missing :: package_file_spec where
  "spec_missing =
     \<lparr>spec_id = ''c'', spec_displayName = None, packageName = ''c'',
      spec_pathSegments = None,
      candidates = Some
        [Some \<lparr>pathSegments = [''one.js''], displayName = None\<rparr>,
         Some \<lparr>pathSegments = [''two.js''], displayName = None\<rparr>]\<rparr>"

definition file_a :: package_file where
  "file_a =
     \<lparr>file_id = ''a'', file_displayName = ''a/x.js'',
      absolutePath = ''/r/node_modules/a/x.js'', relativePath = ''node_modules/a/x.js''\<rparr>"

text \<open>A host whose renderer fails on the chart of \<open>file_b\<close>.\<close>

definition failing_host :: host where
  "failing_host =
     example_host\<lparr>renderToBufferSync :=
       (\<lambda>cfg. if title_text cfg = ''b/new.css Compression Ratio''
              then Inl (RenderError ''no canvas'') else Inr ''<svg/>'')\<rparr>"

definition file_b :: package_file where
  "file_b =
     \<lparr>file_id = ''b'', file_displayName = ''b/new.css'',
      absolutePath = ''/r/node_modules/b/new.css'', relativePath = ''node_modules/b/new.css''\<rparr>"


section \<open>The registry and the sweep\<close>

lemma gzip_levels: "map (\<lambda>index. int index + 1) [0..<9] = [1..9]"
  by code_simp

lemma brotli_levels: "map (\<lambda>index. int index) [0..<12] = [0..11]"
  by code_simp

lemma zstd_levels: "map (\<lambda>index. int index + 1) [0..<22] = [1..22]"
  by code_simp

text \<open>
  Claim C7. The registry has exactly three entries, gzip, brotli and zstd in this order,
  and their declared levels are the contiguous ranges 1..9, 0..11 and 1..22.
\<close>

theorem registry_three_ranges:
  "length (algorithms h) = 3 \<and>
   map name (algorithms h) = [''gzip'', ''brotli'', ''zstd''] \<and>
   map levels (algorithms h) = [[1..9], [0..11], [1..22]]"
  by (simp add: algorithms_def gzip_levels brotli_levels zstd_levels)

lemma sorted_upto: "sorted_wrt (<) [i..j]"
  by (simp add: sorted_wrt_iff_nth_less)

lemma registry_levels_ascending:
  "a \<in> set (algorithms h) \<Longrightarrow> sorted_wrt (<) (levels a)"
  unfolding algorithms_def gzip_levels brotli_levels zstd_levels
  by (auto simp: sorted_upto simp del: upto.simps)

lemma sweep_levels_expected:
  "map_sum id (map untimed) (fst (sweep_levels h a buf n ls ms w)) =
   map_sum id ((@) (map untimed ms)) (expected_levels a buf n ls)"
proof (induction ls arbitrary: ms w)
  case Nil
  show ?case by simp
next
  case (Cons l ls)
  show ?case
  proof (cases "compress a buf l")
    case (Inl e)
    then show ?thesis by (simp add: now_def)
  next
    case (Inr c)
    then show ?thesis
      using Cons.IH
      by (cases "expected_levels a buf n ls") (simp_all add: now_def Let_def untimed_def)
  qed
qed

lemma sweep_algorithms_expected:
  "map_sum id (map untimed_result) (fst (sweep_algorithms h buf n reg rs w)) =
   map_sum id ((@) (map untimed_result rs)) (expected_results buf n reg)"
proof (induction reg arbitrary: rs w)
  case Nil
  show ?case by simp
next
  case (Cons a reg)
  obtain r w1 where sl: "sweep_levels h a buf n (levels a) [] w = (r, w1)"
    by (cases "sweep_levels h a buf n (levels a) [] w")
  have lv: "map_sum id (map untimed) r = expected_levels a buf n (levels a)"
    using sweep_levels_expected [of h a buf n "levels a" "[]" w] sl
    by (cases "expected_levels a buf n (levels a)") simp_all
  show ?case
  proof (cases r)
    case (Inl e)
    with lv sl show ?thesis by (cases "expected_levels a buf n (levels a)") simp_all
  next
    case (Inr ms)
    with lv have el: "expected_levels a buf n (levels a) = Inr (map untimed ms)"
      by simp
    show ?thesis
      using Cons.IH sl Inr el
      by (cases "expected_results buf n reg") (simp_all add: untimed_result_def)
  qed
qed

lemma sweep_algorithms_Inr:
  assumes "sweep_algorithms h buf n reg [] w = (Inr rs, w')"
  shows "expected_results buf n reg = Inr (map untimed_result rs)"
  using sweep_algorithms_expected [of h buf n reg "[]" w] assms
  by (cases "expected_results buf n reg") simp_all

lemma expected_levels_fst:
  "expected_levels a buf n ls = Inr xs \<Longrightarrow> map fst xs = ls"
  by (induction ls arbitrary: xs) (auto split: sum.splits)

lemma expected_results_shape:
  "expected_results buf n reg = Inr xs \<Longrightarrow>
   list_all2 (\<lambda>a x. fst x = name a \<and> expected_levels a buf n (levels a) = Inr (snd x)) reg xs"
  by (induction reg arbitrary: xs) (auto split: sum.splits)

lemma sweep_algorithms_shape:
  assumes "sweep_algorithms h buf n reg [] w = (Inr rs, w')"
  shows "list_all2 (\<lambda>a r. result_name r = name a \<and>
            expected_levels a buf n (levels a) = Inr (map untimed (measurements r))) reg rs"
proof -
  have "list_all2 (\<lambda>a x. fst x = name a \<and> expected_levels a buf n (levels a) = Inr (snd x))
          reg (map untimed_result rs)"
    using sweep_algorithms_Inr [OF assms] by (rule expected_results_shape)
  then show ?thesis
    by (simp add: list_all2_map2 untimed_result_def)
qed

lemma sweep_algorithms_declared:
  assumes sw: "sweep_algorithms h buf n reg [] w = (Inr rs, w')"
    and asc: "\<And>a. a \<in> set reg \<Longrightarrow> sorted_wrt (<) (levels a)"
  shows "list_all2 swept_as_declared reg rs"
proof -
  have sh: "list_all2 (\<lambda>a r. result_name r = name a \<and>
            expected_levels a buf n (levels a) = Inr (map untimed (measurements r))) reg rs"
    using sw by (rule sweep_algorithms_shape)
  have len: "length reg = length rs"
    using sh by (rule list_all2_lengthD)
  have "swept_as_declared (reg ! i) (rs ! i)" if i: "i < length reg" for i
  proof -
    let ?a = "reg ! i" and ?r = "rs ! i"
    have both: "result_name ?r = name ?a \<and>
            expected_levels ?a buf n (levels ?a) = Inr (map untimed (measurements ?r))"
      using sh i by (rule list_all2_nthD)
    have lv: "map level (measurements ?r) = levels ?a"
      using both expected_levels_fst [of ?a buf n "levels ?a" "map untimed (measurements ?r)"]
      by (simp add: comp_def untimed_def)
    have "sorted_wrt (<) (levels ?a)"
      using i by (simp add: asc)
    moreover have "length (measurements ?r) = length (levels ?a)"
      using arg_cong [OF lv, of length] by simp
    ultimately show ?thesis
      using both lv by (simp add: swept_as_declared_def strict_sorted_iff)
  qed
  then show ?thesis
    using len by (simp add: list_all2_conv_all_nth)
qed

lemma readFileSync_Inr: "readFileSync w p = Inr buf \<longleftrightarrow> fs w p = Some (File buf)"
  by (simp add: readFileSync_def split: option.splits fs_node.splits)

lemma measure_file_read:
  assumes "measure_file h reg f w = (Inr fr, w')"
  shows "\<exists>buf. readFileSync w (absolutePath f) = Inr buf"
proof (cases "readFileSync w (absolutePath f)")
  case (Inl e)
  with assms show ?thesis
    by (simp add: measure_file_def split: sum.splits)
next
  case (Inr buf)
  then show ?thesis by simp
qed

lemma measure_file_unfold:
  assumes "fs w (absolutePath f) = Some (File buf)"
  shows "measure_file h reg f w =
     (case sweep_algorithms h buf (length buf) reg [] (announced h f (length buf) w) of
        (Inl e, w2) \<Rightarrow> (Inl e, w2)
      | (Inr rs, w2) \<Rightarrow>
          (Inr \<lparr>fr_id = file_id f, fr_displayName = file_displayName f,
                fr_originalSize = length buf, fr_algorithms = rs\<rparr>,
           if verbose h then console_log ''  Generating chart'' w2 else w2))"
  using assms
  by (simp add: measure_file_def ensureFile_def existsSync_def readFileSync_def Let_def)

lemma measure_file_sweep:
  assumes "measure_file h reg f w = (Inr fr, w')"
  obtains buf w2 where "fs w (absolutePath f) = Some (File buf)"
    and "sweep_algorithms h buf (length buf) reg [] (announced h f (length buf) w)
           = (Inr (fr_algorithms fr), w2)"
    and "fr_originalSize fr = length buf"
    and "fr_id fr = file_id f"
    and "fr_displayName fr = file_displayName f"
    and "w' = (if verbose h then console_log ''  Generating chart'' w2 else w2)"
proof -
  from measure_file_read [OF assms] obtain buf
    where content: "fs w (absolutePath f) = Some (File buf)"
    by (auto simp: readFileSync_Inr)
  obtain r w2 where sw:
    "sweep_algorithms h buf (length buf) reg [] (announced h f (length buf) w) = (r, w2)"
    by (cases "sweep_algorithms h buf (length buf) reg [] (announced h f (length buf) w)")
  from assms obtain rs where r: "r = Inr rs"
    by (cases r) (simp_all add: measure_file_unfold [OF content] sw)
  from assms have fr: "fr = \<lparr>fr_id = file_id f, fr_displayName = file_displayName f,
                fr_originalSize = length buf, fr_algorithms = rs\<rparr>"
    and w': "w' = (if verbose h then console_log ''  Generating chart'' w2 else w2)"
    by (simp_all add: measure_file_unfold [OF content] sw r)
  show ?thesis
  proof (rule that [of buf w2])
    show "fs w (absolutePath f) = Some (File buf)" by (rule content)
    show "sweep_algorithms h buf (length buf) reg [] (announced h f (length buf) w)
           = (Inr (fr_algorithms fr), w2)"
      by (simp add: sw r fr)
    show "fr_originalSize fr = length buf" "fr_id fr = file_id f"
      "fr_displayName fr = file_displayName f"
      by (simp_all add: fr)
    show "w' = (if verbose h then console_log ''  Generating chart'' w2 else w2)" by (rule w')
  qed
qed

lemma chart_file_entry:
  assumes "chart_file h file fr w = (Inr entry, w')"
  shows "re_id entry = fr_id fr \<and> re_displayName entry = fr_displayName fr \<and>
         re_originalSize entry = fr_originalSize fr \<and> re_algorithms entry = fr_algorithms fr"
  using assms
  by (auto simp: chart_file_def Let_def split: sum.splits)

lemma process_file_declared:
  assumes pf: "process_file h reg file w = (Inr entry, w')"
    and asc: "\<And>a. a \<in> set reg \<Longrightarrow> sorted_wrt (<) (levels a)"
  shows "list_all2 swept_as_declared reg (re_algorithms entry)"
proof -
  obtain fr w1 where mf: "measure_file h reg file w = (Inr fr, w1)"
    and cf: "chart_file h file fr w1 = (Inr entry, w')"
    using pf by (auto simp: process_file_def split: prod.splits sum.splits)
  obtain buf wb where "sweep_algorithms h buf (length buf) reg []
      (announced h file (length buf) w) = (Inr (fr_algorithms fr), wb)"
    using mf by (rule measure_file_sweep)
  then have "list_all2 swept_as_declared reg (fr_algorithms fr)"
    using asc by (rule sweep_algorithms_declared)
  then show ?thesis
    using chart_file_entry [OF cf] by simp
qed

lemma process_files_declared:
  assumes "process_files h reg files acc w = (Inr results, w')"
    and "\<And>a. a \<in> set reg \<Longrightarrow> sorted_wrt (<) (levels a)"
    and "list_all (\<lambda>r. list_all2 swept_as_declared reg (re_algorithms r)) acc"
  shows "length results = length acc + length files \<and>
         list_all (\<lambda>r. list_all2 swept_as_declared reg (re_algorithms r)) results"
  using assms
proof (induction files arbitrary: acc w)
  case Nil
  then show ?case by simp
next
  case (Cons f files)
  obtain entry w1 where pf: "process_file h reg f w = (Inr entry, w1)"
    and rest: "process_files h reg files (acc @ [entry]) w1 = (Inr results, w')"
    using Cons.prems(1) by (auto split: prod.splits sum.splits)
  have "list_all2 swept_as_declared reg (re_algorithms entry)"
    using pf Cons.prems(2) by (rule process_file_declared)
  with Cons.prems(3)
  have "list_all (\<lambda>r. list_all2 swept_as_declared reg (re_algorithms r)) (acc @ [entry])"
    by simp
  from Cons.IH [OF rest Cons.prems(2) this] show ?case by simp
qed

text \<open>
  Claim C1. When the loop over the artifacts completes, it has produced one entry per
  artifact, and in every entry the results line up with the registry: for each algorithm
  the measured levels are exactly its declared levels, in the declared order, so their
  number is the declared number, no level occurs twice and the levels are strictly
  ascending.
\<close>

theorem every_level_measured_once:
  assumes "process_files h (algorithms h) files [] w = (Inr results, w')"
  shows "length results = length files \<and>
         list_all (\<lambda>r. list_all2 swept_as_declared (algorithms h) (re_algorithms r)) results"
  using process_files_declared [OF assms registry_levels_ascending] by simp

lemmas example_defs =
  example_host_def example_world_def file_a_def file_b_def measure_file_def ensureFile_def
  announced_def
  existsSync_def readFileSync_def now_def js_divide_def console_log_def console_error_def
  writeFileSync_def chartsDir_def generateChart_def chart_file_def process_file_def

lemma registry_level_lists:
  "map (\<lambda>index. int index + 1) [0..<9] = [1, 2, 3, 4, 5, 6, 7, 8, 9]"
  "map (\<lambda>index. int index) [0..<12] = [0, 1, 2, 3, 4, 5, 6, 7, 8, 9, 10, 11]"
  "map (\<lambda>index. int index + 1) [0..<22] =
     [1, 2, 3, 4, 5, 6, 7, 8, 9, 10, 11, 12, 13, 14, 15, 16, 17, 18, 19, 20, 21, 22]"
  by code_simp+

theorem every_level_measured_once_witness:
  "case process_files example_host (algorithms example_host) [file_a, file_b] [] example_world of
     (Inr results, w') \<Rightarrow>
       length results = 2 \<and>
       list_all (\<lambda>r. list_all2 swept_as_declared (algorithms example_host) (re_algorithms r))
         results
   | (Inl e, w') \<Rightarrow> False"
proof -
  obtain r w' where pf:
    "process_files example_host (algorithms example_host) [file_a, file_b] [] example_world = (r, w')"
    by (cases "process_files example_host (algorithms example_host) [file_a, file_b] [] example_world")
  have "\<not> isl (fst (process_files example_host (algorithms example_host) [file_a, file_b] []
                      example_world))"
    by (simp add: example_defs algorithms_def registry_level_lists Let_def)
  with pf obtain results where r: "r = Inr results"
    by (cases r) simp_all
  from every_level_measured_once [OF pf [unfolded r]] show ?thesis
    unfolding pf r by simp
qed

section \<open>Sizes and ratios\<close>

lemma sweep_levels_superseded_eq:
  "sweep_levels_superseded h a buf n ls ms w = sweep_levels h a buf n ls ms w"
  by (induction ls arbitrary: ms w) (simp_all split: prod.splits sum.splits)

lemma sweep_algorithms_superseded_eq:
  "sweep_algorithms_superseded h buf n reg rs w = sweep_algorithms h buf n reg rs w"
  by (induction reg arbitrary: rs w)
     (simp_all add: sweep_levels_superseded_eq split: prod.splits sum.splits)

text \<open>
  Claim C10. The sweep loops of the superseded script and of the current script give the
  same results for the same buffer and registry: the same algorithm names, levels, sizes
  and ratios in the same order, or the same codec error, whatever the clocks, the verbose
  flags and the worlds of the two runs; on the same host and world they agree on the
  timings as well. The two registries are the same.
\<close>

theorem superseded_sweep_equivalent:
  "map_sum id (map untimed_result) (fst (sweep_algorithms_superseded h1 buf n reg [] w1)) =
   map_sum id (map untimed_result) (fst (sweep_algorithms h2 buf n reg [] w2)) \<and>
   sweep_algorithms_superseded h buf n reg [] w = sweep_algorithms h buf n reg [] w \<and>
   algorithms_superseded h = algorithms h"
  by (simp add: sweep_algorithms_superseded_eq sweep_algorithms_expected
      algorithms_superseded_def algorithms_def)








text \<open>
  Claim C8. For a buffer of 1000 bytes and an algorithm with levels 1, 2, 3 whose codec
  returns 500, 400 and 300 bytes, the sweep returns three measurements, in this order,
  with ratios 1/2, 2/5 and 3/10.
\<close>

theorem stub_sweep_ratios:
  assumes "length buf = 1000" and "levels a = [1, 2, 3]"
    and "compress a buf 1 = Inr c1" and "length c1 = 500"
    and "compress a buf 2 = Inr c2" and "length c2 = 400"
    and "compress a buf 3 = Inr c3" and "length c3 = 300"
  shows "\<exists>ms w'. sweep_algorithms h buf (length buf) [a] [] w =
                   (Inr [\<lparr>result_name = name a, measurements = ms\<rparr>], w') \<and>
           length ms = 3 \<and> map level ms = [1, 2, 3] \<and> map size_m ms = [500, 400, 300] \<and>
           map ratio ms = [Finite (1 / 2), Finite (2 / 5), Finite (3 / 10)]"
  using assms by (simp add: now_def js_divide_def)

theorem stub_sweep_ratios_witness:
  "\<exists>ms w'. sweep_algorithms example_host (replicate 1000 (CHR ''a'')) 1000 [stub_algorithm] []
              example_world =
             (Inr [\<lparr>result_name = ''stub'', measurements = ms\<rparr>], w') \<and>
     length ms = 3 \<and> map level ms = [1, 2, 3] \<and> map size_m ms = [500, 400, 300] \<and>
     map ratio ms = [Finite (1 / 2), Finite (2 / 5), Finite (3 / 10)]"
  using stub_sweep_ratios [of "replicate 1000 (CHR ''a'')" stub_algorithm
      "replicate 500 (CHR ''z'')" "replicate 400 (CHR ''z'')" "replicate 300 (CHR ''z'')"
      example_host example_world]
  by (simp add: stub_algorithm_def)



section \<open>Resolution of the artifacts\<close>


lemma try_candidates_none:
  assumes root: "require_resolve h (path_join h [pkg, ''package.json'']) (repoRoot h) = Inr pj"
    and missing: "\<forall>c\<in>set cs.
            \<not> existsSync w (path_join h (path_dirname h pj # nc_pathSegments c))"
  shows "try_candidates h w ident pkg cs = Inr None"
  using missing
proof (induction cs)
  case Nil
  show ?case by simp
next
  case (Cons c cs)
  then show ?case using root by (simp add: resolvePackageFile_def)
qed



lemma join_contains: "p \<in> set ps \<Longrightarrow> sublist p (join sep ps)"
proof (induction sep ps rule: join.induct)
  case (1 sep)
  then show ?case by simp
next
  case (2 sep x)
  then show ?case by simp
next
  case (3 sep x y ys)
  show ?case
  proof (cases "p = x")
    case True
    then show ?thesis by simp
  next
    case False
    with 3 have "sublist p (join sep (y # ys))" by simp
    then obtain a b where "join sep (y # ys) = a @ p @ b"
      by (auto simp: sublist_def)
    then have "join sep (x # y # ys) = (x @ sep @ a) @ p @ b" by simp
    then show ?thesis unfolding sublist_def by blast
  qed
qed

lemma message_contains:
  assumes "p \<in> set tried"
  shows "sublist p (not_found_message pkg tried)"
proof -
  from join_contains [OF assms, of "'', ''"] obtain a b where "join '', '' tried = a @ p @ b"
    by (auto simp: sublist_def)
  then have "not_found_message pkg tried =
             (''Required file not found for '' @ pkg @ ''. Tried: '' @ a) @ p @ b"
    by (simp add: not_found_message_def)
  then show ?thesis unfolding sublist_def by blast
qed

lemma create_files_stops:
  assumes "create_files h w pre = Inr files" and "createPackageFile h w spec = Inl e"
  shows "create_files h w (pre @ spec # post) = Inl e"
  using assms
  by (induction pre arbitrary: files) (auto split: sum.splits)

text \<open>
  Claim C4. When the package of an artifact is installed and none of its candidate paths
  exists, \<open>createPackageFile\<close> throws the error whose message names the package and
  lists, for every candidate, the package name joined with its segments. Thrown while
  the module builds \<open>files\<close>, the error is uncaught: it is printed, the exit status is 1,
  \<open>main\<close> never runs, and the filesystem is left as it was (no chart, no report).
\<close>

theorem no_candidate_aborts_run:
  assumes zstd: "has_zstd h"
    and earlier: "create_files h w pre = Inr files"
    and cl: "candidateList spec = Inr cs"
    and root: "require_resolve h (path_join h [packageName spec, ''package.json'']) (repoRoot h)
                 = Inr pj"
    and missing: "\<forall>c\<in>set cs.
            \<not> existsSync w (path_join h (path_dirname h pj # nc_pathSegments c))"
  shows "createPackageFile h w spec =
           Inl (Error (not_found_message (packageName spec) (attempted h (packageName spec) cs))) \<and>
         attempted h (packageName spec) cs =
           map (\<lambda>c. path_join h (packageName spec # nc_pathSegments c)) cs \<and>
         list_all (\<lambda>p. sublist p
             (not_found_message (packageName spec) (attempted h (packageName spec) cs)))
           (attempted h (packageName spec) cs) \<and>
         run h registry (pre @ spec # post) w =
           w\<lparr>stderr := stderr w @
                [Thrown (Error (not_found_message (packageName spec)
                   (attempted h (packageName spec) cs)))],
             exitCode := 1\<rparr> \<and>
         fs (run h registry (pre @ spec # post) w) = fs w"
proof -
  let ?e = "Error (not_found_message (packageName spec) (attempted h (packageName spec) cs))"
  have thrown: "createPackageFile h w spec = Inl ?e"
    using try_candidates_none [OF root missing]
    by (simp add: createPackageFile_def cl)
  have stops: "create_files h w (pre @ spec # post) = Inl ?e"
    using earlier thrown by (rule create_files_stops)
  have r: "run h registry (pre @ spec # post) w = w\<lparr>stderr := stderr w @ [Thrown ?e], exitCode := 1\<rparr>"
    using zstd by (simp add: run_def stops uncaught_def console_error_def)
  have "list_all (\<lambda>p. sublist p
             (not_found_message (packageName spec) (attempted h (packageName spec) cs)))
           (attempted h (packageName spec) cs)"
    by (simp add: list_all_iff message_contains)
  with thrown r show ?thesis
    by (simp add: attempted_def)
qed

theorem no_candidate_aborts_run_witness:
  "createPackageFile example_host example_world spec_missing =
     Inl (Error ''Required file not found for c. Tried: c/one.js, c/two.js'') \<and>
   sublist ''c/one.js'' ''Required file not found for c. Tried: c/one.js, c/two.js'' \<and>
   sublist ''c/two.js'' ''Required file not found for c. Tried: c/one.js, c/two.js'' \<and>
   run example_host [short_algorithm] [spec_a, spec_b, spec_missing] example_world =
     example_world\<lparr>stderr :=
         [Thrown (Error ''Required file not found for c. Tried: c/one.js, c/two.js'')],
       exitCode := 1\<rparr> \<and>
   fs (run example_host [short_algorithm] [spec_a, spec_b, spec_missing] example_world) =
     fs example_world"
proof -
  have files: "create_files example_host example_world [spec_a, spec_b] = Inr [file_a, file_b]"
    by (simp add: spec_a_def spec_b_def plain_spec_def createPackageFile_def candidateList_def
        name_candidate_def resolvePackageFile_def example_host_def example_world_def
        existsSync_def file_a_def file_b_def List.map_filter_simps)
  have cl: "candidateList spec_missing =
        Inr [\<lparr>nc_pathSegments = [''one.js''], nc_displayName = ''c/one.js''\<rparr>,
             \<lparr>nc_pathSegments = [''two.js''], nc_displayName = ''c/two.js''\<rparr>]"
    by (simp add: spec_missing_def candidateList_def name_candidate_def List.map_filter_simps)
  have root: "require_resolve example_host
        (path_join example_host [packageName spec_missing, ''package.json''])
        (repoRoot example_host) = Inr ''/r/node_modules/c/package.json''"
    by (simp add: example_host_def spec_missing_def)
  have zstd: "has_zstd example_host"
    by (simp add: example_host_def)
  have missing: "\<forall>c\<in>set [\<lparr>nc_pathSegments = [''one.js''], nc_displayName = ''c/one.js''\<rparr>,
             \<lparr>nc_pathSegments = [''two.js''], nc_displayName = ''c/two.js''\<rparr>].
      \<not> existsSync example_world (path_join example_host
           (path_dirname example_host ''/r/node_modules/c/package.json'' # nc_pathSegments c))"
    by (simp add: example_host_def example_world_def existsSync_def)
  from no_candidate_aborts_run [OF zstd files cl root missing, of "[short_algorithm]" "[]"]
  show ?thesis
    by (simp add: attempted_def not_found_message_def example_host_def spec_missing_def
        example_world_def)
qed

section \<open>The driver\<close>

lemma sweep_levels_quiet:
  "fs (snd (sweep_levels h a buf n ls ms w)) = fs w \<and>
   stderr (snd (sweep_levels h a buf n ls ms w)) = stderr w \<and>
   exitCode (snd (sweep_levels h a buf n ls ms w)) = exitCode w"
  by (induction ls arbitrary: ms w) (simp_all add: now_def Let_def split: sum.splits)

lemma sweep_algorithms_quiet:
  "fs (snd (sweep_algorithms h buf n reg rs w)) = fs w \<and>
   stderr (snd (sweep_algorithms h buf n reg rs w)) = stderr w \<and>
   exitCode (snd (sweep_algorithms h buf n reg rs w)) = exitCode w"
proof (induction reg arbitrary: rs w)
  case Nil
  show ?case by simp
next
  case (Cons a reg)
  obtain r w1 where sl: "sweep_levels h a buf n (levels a) [] w = (r, w1)"
    by (cases "sweep_levels h a buf n (levels a) [] w")
  have q: "fs w1 = fs w \<and> stderr w1 = stderr w \<and> exitCode w1 = exitCode w"
    using sweep_levels_quiet [of h a buf n "levels a" "[]" w] by (simp add: sl)
  show ?case
  proof (cases r)
    case (Inl e)
    then show ?thesis using q by (simp add: sl)
  next
    case (Inr ms)
    then show ?thesis using q Cons.IH by (simp add: sl console_log_def)
  qed
qed

lemma announced_quiet:
  "fs (announced h f n w) = fs w \<and> stderr (announced h f n w) = stderr w \<and>
   exitCode (announced h f n w) = exitCode w"
  by (simp add: announced_def console_log_def)

lemma measure_file_quiet:
  assumes "measure_file h reg f w = (Inr fr, w')"
  shows "fs w' = fs w \<and> stderr w' = stderr w \<and> exitCode w' = exitCode w"
proof -
  from assms obtain buf w2 where
    sw: "sweep_algorithms h buf (length buf) reg [] (announced h f (length buf) w)
           = (Inr (fr_algorithms fr), w2)"
    and w': "w' = (if verbose h then console_log ''  Generating chart'' w2 else w2)"
    by (rule measure_file_sweep)
  have "fs w2 = fs w \<and> stderr w2 = stderr w \<and> exitCode w2 = exitCode w"
    using sweep_algorithms_quiet [of h buf "length buf" reg "[]" "announced h f (length buf) w"]
    by (simp add: sw announced_quiet)
  then show ?thesis by (simp add: w' console_log_def)
qed

lemma process_files_append:
  assumes "process_files h reg pre acc w = (Inr results, w1)"
  shows "process_files h reg (pre @ rest) acc w = process_files h reg rest results w1"
  using assms
  by (induction pre arbitrary: acc w) (auto split: prod.splits sum.splits)

text \<open>
  Claim C5. When the artifacts before one are processed, that one is measured, and the
  renderer fails on its chart, the error leaves the loop and \<open>main\<close>: the loop's outcome
  does not depend on the artifacts after it, the filesystem stays as the artifacts
  before it left it (no chart for this artifact, no report), the error is printed on
  the error stream and the exit status is 1.
\<close>

theorem render_failure_aborts_run:
  assumes zstd: "has_zstd h"
    and files: "create_files h w specs = Inr (pre @ f # post)"
    and dir: "ensure_chartsDir h w = Inr w0"
    and before: "process_files h registry pre [] w0 = (Inr results, w1)"
    and measured: "measure_file h registry f w1 = (Inr fileResult, w2)"
    and render: "generateChart h fileResult = Inl e"
  shows "process_files h registry (pre @ f # post) [] w0 = process_files h registry [f] results w1 \<and>
         run h registry specs w =
           w2\<lparr>stderr := stderr w1 @
                [Text (''  Failed to generate chart for '' @ file_displayName f), Thrown e],
              exitCode := 1\<rparr> \<and>
         fs (run h registry specs w) = fs w1 \<and>
         exitCode (run h registry specs w) = 1 \<and>
         last (stderr (run h registry specs w)) = Thrown e"
proof -
  have q: "fs w2 = fs w1 \<and> stderr w2 = stderr w1"
    using measure_file_quiet [OF measured] by simp
  have one: "process_file h registry f w1 =
      (Inl e, console_error (Text (''  Failed to generate chart for '' @ file_displayName f)) w2)"
    by (simp add: process_file_def measured chart_file_def render)
  have loop: "process_files h registry (pre @ f # post) [] w0 =
              process_files h registry (f # post) results w1"
    using before by (rule process_files_append)
  have loop1: "process_files h registry (pre @ f # post) [] w0 =
      (Inl e, console_error (Text (''  Failed to generate chart for '' @ file_displayName f)) w2)"
    by (simp add: loop one)
  have "run h registry specs w =
           w2\<lparr>stderr := stderr w1 @
                [Text (''  Failed to generate chart for '' @ file_displayName f), Thrown e],
              exitCode := 1\<rparr>"
    using zstd q by (simp add: run_def files main_def dir loop1 console_error_def)
  then show ?thesis
    using q by (simp add: loop one)
qed


lemmas resolve_defs =
  spec_a_def spec_b_def plain_spec_def createPackageFile_def candidateList_def
  name_candidate_def resolvePackageFile_def existsSync_def List.map_filter_simps

theorem render_failure_aborts_run_witness:
  "exitCode (run failing_host [short_algorithm] [spec_a, spec_b, spec_a] example_world) = 1 \<and>
   stderr (run failing_host [short_algorithm] [spec_a, spec_b, spec_a] example_world) =
     [Text ''  Failed to generate chart for b/new.css'', Thrown (RenderError ''no canvas'')] \<and>
   fs (run failing_host [short_algorithm] [spec_a, spec_b, spec_a] example_world)
     ''/r/README.md'' = None \<and>
   fs (run failing_host [short_algorithm] [spec_a, spec_b, spec_a] example_world)
     ''/r/charts/b-new-css.svg'' = None \<and>
   fs (run failing_host [short_algorithm] [spec_a, spec_b, spec_a] example_world)
     ''/r/charts/a-x-js.svg'' = Some (File ''<svg/>'')"
proof -
  let ?h = failing_host and ?reg = "[short_algorithm]"
  define w0 where "w0 = example_world\<lparr>fs := (fs example_world)(''/r/charts'' \<mapsto> Dir)\<rparr>"
  have zstd: "has_zstd ?h"
    by (simp add: failing_host_def example_host_def)
  have files: "create_files ?h example_world [spec_a, spec_b, spec_a] = Inr ([file_a] @ file_b # [file_a])"
    by (simp add: resolve_defs failing_host_def example_host_def example_world_def
        file_a_def file_b_def)
  have dir: "ensure_chartsDir ?h example_world = Inr w0"
    by (simp add: ensure_chartsDir_def chartsDir_def mkdirSync_def existsSync_def w0_def
        failing_host_def example_host_def example_world_def)
  obtain r w1 where first: "process_files ?h ?reg [file_a] [] w0 = (r, w1)"
    by (cases "process_files ?h ?reg [file_a] [] w0")
  have ev: "\<not> isl (fst (process_files ?h ?reg [file_a] [] w0)) \<and>
      fs (snd (process_files ?h ?reg [file_a] [] w0)) =
        (fs w0)(''/r/charts/a-x-js.svg'' \<mapsto> File ''<svg/>'') \<and>
      stderr (snd (process_files ?h ?reg [file_a] [] w0)) = []"
    by (simp add: example_defs failing_host_def short_algorithm_def w0_def Let_def
        slugify_def toLowerCase_def slug_char_def trim_dashes_def)
  then obtain results where r: "r = Inr results"
    using first by (cases r) simp_all
  have fs1: "fs w1 = (fs w0)(''/r/charts/a-x-js.svg'' \<mapsto> File ''<svg/>'')"
    and err1: "stderr w1 = []"
    using ev first by simp_all
  have content: "fs w1 (absolutePath file_b) = Some (File ''abcd'')"
    by (simp add: fs1 w0_def file_b_def example_world_def)
  obtain r2 w2 where second: "measure_file ?h ?reg file_b w1 = (r2, w2)"
    by (cases "measure_file ?h ?reg file_b w1")
  have "\<not> isl (fst (measure_file ?h ?reg file_b w1))"
    by (simp add: measure_file_unfold [OF content] short_algorithm_def now_def)
  then obtain fileResult where r2: "r2 = Inr fileResult"
    using second by (cases r2) simp_all
  have "fr_displayName fileResult = file_displayName file_b"
    using second [unfolded r2] by (rule measure_file_sweep)
  then have render: "generateChart ?h fileResult = Inl (RenderError ''no canvas'')"
    by (simp add: generateChart_def failing_host_def example_host_def file_b_def)
  note outcome =
    render_failure_aborts_run [OF zstd files dir first [unfolded r] second [unfolded r2] render]
  let ?end = "run ?h ?reg [spec_a, spec_b, spec_a] example_world"
  have whole: "?end = w2\<lparr>stderr := stderr w1 @
                [Text (''  Failed to generate chart for '' @ file_displayName file_b),
                 Thrown (RenderError ''no canvas'')],
              exitCode := 1\<rparr>"
    by (rule outcome [THEN conjunct2, THEN conjunct1])
  have disk: "fs ?end = fs w1"
    by (rule outcome [THEN conjunct2, THEN conjunct2, THEN conjunct1])
  have status: "exitCode ?end = 1"
    by (rule outcome [THEN conjunct2, THEN conjunct2, THEN conjunct2, THEN conjunct1])
  have "stderr ?end = stderr w1 @
                [Text (''  Failed to generate chart for '' @ file_displayName file_b),
                 Thrown (RenderError ''no canvas'')]"
    by (subst whole) simp
  then have errors: "stderr ?end =
      [Text ''  Failed to generate chart for b/new.css'', Thrown (RenderError ''no canvas'')]"
    by (simp add: err1 file_b_def)
  show ?thesis
    unfolding disk fs1 errors status
    by (simp add: w0_def example_world_def)
qed

section \<open>The report\<close>

lemma try_candidates_id:
  "try_candidates h w ident pkg cs = Inr (Some file) \<Longrightarrow> file_id file = ident"
  by (induction cs) (auto split: sum.splits if_splits)

lemma createPackageFile_id:
  "createPackageFile h w spec = Inr file \<Longrightarrow> file_id file = spec_id spec"
  by (auto simp: createPackageFile_def split: sum.splits option.splits dest: try_candidates_id)

lemma create_files_ids:
  "create_files h w specs = Inr files \<Longrightarrow> map file_id files = map spec_id specs"
  by (induction specs arbitrary: files) (auto split: sum.splits dest: createPackageFile_id)

lemma process_file_entry:
  assumes "process_file h reg f w = (Inr entry, w')"
  shows "re_id entry = file_id f \<and> re_displayName entry = file_displayName f"
proof -
  obtain fr w1 where mf: "measure_file h reg f w = (Inr fr, w1)"
    and cf: "chart_file h f fr w1 = (Inr entry, w')"
    using assms by (auto simp: process_file_def split: prod.splits sum.splits)
  have "fr_id fr = file_id f"
    using mf by (rule measure_file_sweep)
  moreover have "fr_displayName fr = file_displayName f"
    using mf by (rule measure_file_sweep)
  ultimately have "fr_id fr = file_id f" "fr_displayName fr = file_displayName f"
    by simp_all
  with chart_file_entry [OF cf] show ?thesis by simp
qed

lemma process_files_entries:
  assumes "process_files h reg files acc w = (Inr results, w')"
  shows "map re_id results = map re_id acc @ map file_id files \<and>
         map re_displayName results = map re_displayName acc @ map file_displayName files"
  using assms
proof (induction files arbitrary: acc w)
  case Nil
  then show ?case by simp
next
  case (Cons f files)
  obtain entry w1 where pf: "process_file h reg f w = (Inr entry, w1)"
    and rest: "process_files h reg files (acc @ [entry]) w1 = (Inr results, w')"
    using Cons.prems by (auto split: prod.splits sum.splits)
  from Cons.IH [OF rest] process_file_entry [OF pf] show ?case by simp
qed

lemma table_row_no_heading: "\<not> is_section_heading (table_row h a m)"
  by (simp add: is_section_heading_def table_row_def)

lemma section_heading: "filter is_section_heading (section_lines h r) = [''## '' @ re_displayName r]"
proof -
  have "filter is_section_heading
          (concat (map (\<lambda>a. map (table_row h a) (measurements a)) (re_algorithms r))) = []"
    by (simp add: filter_empty_conv table_row_no_heading)
  then show ?thesis
    by (simp add: section_lines_def is_section_heading_def)
qed

lemma readme_headings:
  "filter is_section_heading (readmeLines h results) =
   map (\<lambda>r. ''## '' @ re_displayName r) results"
proof -
  have "filter is_section_heading (concat (map (section_lines h) results)) =
        map (\<lambda>r. ''## '' @ re_displayName r) results"
    by (induction results) (simp_all add: section_heading)
  then show ?thesis
    by (simp add: readmeLines_def is_section_heading_def readme_intro_def)
qed

lemma main_success:
  assumes "main h reg files w = (Inr (), w')"
  obtains w0 results w1 where "ensure_chartsDir h w = Inr w0"
    and "process_files h reg files [] w0 = (Inr results, w1)"
    and "writeFileSync h (readme_path h) (join [CHR 0x0A] (readmeLines h results)) w1 = Inr w'"
  using assms
  by (auto simp: main_def split: sum.splits prod.splits)

text \<open>
  Claim C6. A run that completes over N declared artifacts has collected N entries, in
  the order of the declaration (same ids, same display names), and has written a report
  whose section headings are exactly the display names of the artifacts in that order:
  the section of an artifact declared earlier comes earlier, whatever the clock said.
\<close>

theorem report_sections_in_declaration_order:
  assumes zstd: "has_zstd h"
    and files: "create_files h w specs = Inr files"
    and finished: "main h registry files w = (Inr (), w')"
  shows "run h registry specs w = w' \<and>
         (\<exists>results.
            length results = length specs \<and>
            map re_id results = map spec_id specs \<and>
            map re_displayName results = map file_displayName files \<and>
            fs w' (readme_path h) = Some (File (join [CHR 0x0A] (readmeLines h results))) \<and>
            filter is_section_heading (readmeLines h results) =
              map (\<lambda>f. ''## '' @ file_displayName f) files)"
proof -
  from finished obtain w0 results w1 where
    loop: "process_files h registry files [] w0 = (Inr results, w1)"
    and written: "writeFileSync h (readme_path h) (join [CHR 0x0A] (readmeLines h results)) w1
                    = Inr w'"
    by (rule main_success)
  have ids: "map re_id results = map file_id files"
    and names: "map re_displayName results = map file_displayName files"
    using process_files_entries [OF loop] by simp_all
  have same: "map file_id files = map spec_id specs"
    using files by (rule create_files_ids)
  have len: "length results = length specs"
    using arg_cong [OF ids, of length] arg_cong [OF same, of length] by simp
  have report: "fs w' (readme_path h) = Some (File (join [CHR 0x0A] (readmeLines h results)))"
    using written by (auto simp: writeFileSync_def split: option.splits)
  have heads: "filter is_section_heading (readmeLines h results) =
               map (\<lambda>f. ''## '' @ file_displayName f) files"
    using arg_cong [OF names, of "map (\<lambda>n. ''## '' @ n)"]
    by (simp add: readme_headings comp_def)
  have "run h registry specs w = w'"
    using zstd by (simp add: run_def files finished)
  with len ids same names report heads show ?thesis
    by auto
qed

theorem report_sections_in_declaration_order_witness:
  "\<exists>results.
     length results = 2 \<and>
     map re_id results = [''a'', ''b''] \<and>
     map re_displayName results = [''a/x.js'', ''b/new.css''] \<and>
     fs (run example_host [short_algorithm] [spec_a, spec_b] example_world) ''/r/README.md'' =
       Some (File (join [CHR 0x0A] (readmeLines example_host results))) \<and>
     filter is_section_heading (readmeLines example_host results) =
       [''## a/x.js'', ''## b/new.css'']"
proof -
  let ?h = example_host and ?reg = "[short_algorithm]"
  have zstd: "has_zstd ?h"
    by (simp add: example_host_def)
  have files: "create_files ?h example_world [spec_a, spec_b] = Inr [file_a, file_b]"
    by (simp add: resolve_defs example_host_def example_world_def file_a_def file_b_def)
  define w0 where "w0 = example_world\<lparr>fs := (fs example_world)(''/r/charts'' \<mapsto> Dir)\<rparr>"
  have dir: "ensure_chartsDir ?h example_world = Inr w0"
    by (simp add: ensure_chartsDir_def chartsDir_def mkdirSync_def existsSync_def w0_def
        example_host_def example_world_def)
  obtain q w1 where loop: "process_files ?h ?reg [file_a, file_b] [] w0 = (q, w1)"
    by (cases "process_files ?h ?reg [file_a, file_b] [] w0")
  have "\<not> isl (fst (process_files ?h ?reg [file_a, file_b] [] w0))"
    by (simp add: example_defs short_algorithm_def w0_def Let_def)
  then obtain results where q: "q = Inr results"
    using loop by (cases q) simp_all
  have free: "write_error ?h (readme_path ?h) = None"
    by (simp add: example_host_def)
  define w' where "w' = w1\<lparr>fs := (fs w1)(readme_path ?h \<mapsto>
      File (join [CHR 0x0A] (readmeLines ?h results)))\<rparr>"
  have m: "main ?h ?reg [file_a, file_b] example_world = (Inr (), w')"
    by (simp only: main_def dir sum.case loop q prod.case writeFileSync_def free option.case
        w'_def)
  note outcome = report_sections_in_declaration_order [OF zstd files m]
  have path: "readme_path ?h = ''/r/README.md''"
    by (simp add: readme_path_def example_host_def)
  have ids: "map spec_id [spec_a, spec_b] = [''a'', ''b'']"
    by (simp add: spec_a_def spec_b_def plain_spec_def)
  have names: "map file_displayName [file_a, file_b] = [''a/x.js'', ''b/new.css'']"
    by (simp add: file_a_def file_b_def)
  have heads: "map (\<lambda>f. ''## '' @ file_displayName f) [file_a, file_b] =
               [''## a/x.js'', ''## b/new.css'']"
    by (simp add: file_a_def file_b_def)
  from outcome have whole: "run ?h ?reg [spec_a, spec_b] example_world = w'"
    by (rule conjunct1)
  have two: "length [spec_a, spec_b] = 2"
    by simp
  from outcome [THEN conjunct2] obtain rs where rs:
    "length rs = length [spec_a, spec_b] \<and>
     map re_id rs = map spec_id [spec_a, spec_b] \<and>
     map re_displayName rs = map file_displayName [file_a, file_b] \<and>
     fs w' (readme_path ?h) = Some (File (join [CHR 0x0A] (readmeLines ?h rs))) \<and>
     filter is_section_heading (readmeLines ?h rs) =
       map (\<lambda>f. ''## '' @ file_displayName f) [file_a, file_b]"
    by (rule exE)
  have concrete: "length rs = 2 \<and>
     map re_id rs = [''a'', ''b''] \<and>
     map re_displayName rs = [''a/x.js'', ''b/new.css''] \<and>
     fs (run ?h ?reg [spec_a, spec_b] example_world) ''/r/README.md'' =
       Some (File (join [CHR 0x0A] (readmeLines ?h rs))) \<and>
     filter is_section_heading (readmeLines ?h rs) = [''## a/x.js'', ''## b/new.css'']"
    using rs unfolding whole path ids names heads two .
  show ?thesis
    by (rule exI [where x = rs]) (rule concrete)
qed

section \<open>Two runs\<close>

lemma try_candidates_same:
  assumes "\<forall>c\<in>set cs. \<forall>pj.
      require_resolve h (path_join h [pkg, ''package.json'']) (repoRoot h) = Inr pj \<longrightarrow>
      existsSync w' (path_join h (path_dirname h pj # nc_pathSegments c)) =
      existsSync w (path_join h (path_dirname h pj # nc_pathSegments c))"
  shows "try_candidates h w' ident pkg cs = try_candidates h w ident pkg cs"
  using assms
  by (induction cs) (auto simp: resolvePackageFile_def split: sum.splits)

lemma try_candidates_host:
  "try_candidates (h\<lparr>performance_now := clk, date_toISOString := d, verbose := v\<rparr>) w ident pkg cs =
   try_candidates h w ident pkg cs"
  by (induction cs) (auto simp: resolvePackageFile_def split: sum.splits)

lemma createPackageFile_same:
  assumes "\<forall>p\<in>set (candidate_paths h spec). existsSync w' p = existsSync w p"
  shows "createPackageFile (h\<lparr>performance_now := clk, date_toISOString := d, verbose := v\<rparr>) w' spec =
         createPackageFile h w spec"
proof (cases "candidateList spec")
  case (Inl e)
  then show ?thesis by (simp add: createPackageFile_def)
next
  case (Inr cs)
  have "try_candidates h w' (spec_id spec) (packageName spec) cs =
        try_candidates h w (spec_id spec) (packageName spec) cs"
  proof (rule try_candidates_same, intro ballI allI impI)
    fix c pj
    assume c: "c \<in> set cs"
      and pj: "require_resolve h (path_join h [packageName spec, ''package.json'']) (repoRoot h)
                 = Inr pj"
    then have "path_join h (path_dirname h pj # nc_pathSegments c) \<in> set (candidate_paths h spec)"
      by (simp add: candidate_paths_def Inr)
    with assms show "existsSync w' (path_join h (path_dirname h pj # nc_pathSegments c)) =
                     existsSync w (path_join h (path_dirname h pj # nc_pathSegments c))"
      by blast
  qed
  then show ?thesis
    by (simp add: createPackageFile_def Inr try_candidates_host attempted_def
        split: sum.splits option.splits)
qed

lemma measure_file_disk: "fs (snd (measure_file h reg f w)) = fs w"
proof (cases "fs w (absolutePath f)")
  case None
  then show ?thesis by (simp add: measure_file_def ensureFile_def existsSync_def)
next
  case (Some node)
  show ?thesis
  proof (cases node)
    case Dir
    with Some show ?thesis
      by (simp add: measure_file_def ensureFile_def existsSync_def readFileSync_def)
  next
    case (File buf)
    with Some have content: "fs w (absolutePath f) = Some (File buf)" by simp
    obtain r w2 where sw:
      "sweep_algorithms h buf (length buf) reg [] (announced h f (length buf) w) = (r, w2)"
      by (cases "sweep_algorithms h buf (length buf) reg [] (announced h f (length buf) w)")
    have "fs w2 = fs w"
      using sweep_algorithms_quiet [of h buf "length buf" reg "[]" "announced h f (length buf) w"]
      by (simp add: sw announced_quiet)
    then show ?thesis
      by (cases r) (simp_all add: measure_file_unfold [OF content] sw console_log_def)
  qed
qed

lemma measure_file_rerun:
  assumes bytes: "fs w' (absolutePath f) = fs w (absolutePath f)"
  shows "map_sum id untimed_file
           (fst (measure_file (h\<lparr>performance_now := clk, date_toISOString := d, verbose := v\<rparr>)
                  reg f w')) =
         map_sum id untimed_file (fst (measure_file h reg f w))"
proof (cases "fs w (absolutePath f)")
  case None
  with bytes show ?thesis by (simp add: measure_file_def ensureFile_def existsSync_def)
next
  case (Some node)
  show ?thesis
  proof (cases node)
    case Dir
    with Some bytes show ?thesis
      by (simp add: measure_file_def ensureFile_def existsSync_def readFileSync_def)
  next
    case (File buf)
    let ?h' = "h\<lparr>performance_now := clk, date_toISOString := d, verbose := v\<rparr>"
    from File Some have content: "fs w (absolutePath f) = Some (File buf)" by simp
    with bytes have content': "fs w' (absolutePath f) = Some (File buf)" by simp
    obtain r w2 where sw:
      "sweep_algorithms h buf (length buf) reg [] (announced h f (length buf) w) = (r, w2)"
      by (cases "sweep_algorithms h buf (length buf) reg [] (announced h f (length buf) w)")
    obtain r' w2' where sw':
      "sweep_algorithms ?h' buf (length buf) reg [] (announced ?h' f (length buf) w') = (r', w2')"
      by (cases "sweep_algorithms ?h' buf (length buf) reg [] (announced ?h' f (length buf) w')")
    have "map_sum id (map untimed_result) r' = map_sum id (map untimed_result) r"
      using sweep_algorithms_expected [of h buf "length buf" reg "[]" "announced h f (length buf) w"]
        sweep_algorithms_expected [of ?h' buf "length buf" reg "[]" "announced ?h' f (length buf) w'"]
      by (simp add: sw sw')
    then show ?thesis
      by (cases r; cases r')
         (simp_all add: measure_file_unfold [OF content] measure_file_unfold [OF content'] sw sw'
            untimed_file_def)
  qed
qed

lemma datasets_untimed:
  "map (\<lambda>a. \<lparr>label = toUpperCase (result_name a),
              data = map (\<lambda>m. (level m, ratio m)) (measurements a)\<rparr>) rs =
   map dataset_of (map untimed_result rs)"
  by (simp add: dataset_of_def untimed_result_def untimed_def comp_def)

lemma generateChart_rerun:
  assumes "untimed_file fr' = untimed_file fr"
  shows "generateChart (h\<lparr>performance_now := clk, date_toISOString := d, verbose := v\<rparr>) fr' =
         generateChart h fr"
  using assms
  by (simp add: generateChart_def datasets_untimed untimed_file_def)

lemma chart_file_rerun:
  assumes same: "untimed_file fr' = untimed_file fr"
    and agree: "\<forall>p\<in>S. fs w' p = fs w p"
  shows "map_sum id untimed_entry
           (fst (chart_file (h\<lparr>performance_now := clk, date_toISOString := d, verbose := v\<rparr>)
                  f fr' w')) =
         map_sum id untimed_entry (fst (chart_file h f fr w)) \<and>
         (\<forall>p\<in>S.
            fs (snd (chart_file (h\<lparr>performance_now := clk, date_toISOString := d, verbose := v\<rparr>)
                  f fr' w')) p =
            fs (snd (chart_file h f fr w)) p)"
proof -
  let ?h' = "h\<lparr>performance_now := clk, date_toISOString := d, verbose := v\<rparr>"
  have g: "generateChart ?h' fr' = generateChart h fr"
    using same by (rule generateChart_rerun)
  from same have parts: "fr_id fr' = fr_id fr" "fr_displayName fr' = fr_displayName fr"
    "fr_originalSize fr' = fr_originalSize fr"
    "map untimed_result (fr_algorithms fr') = map untimed_result (fr_algorithms fr)"
    by (simp_all add: untimed_file_def)
  show ?thesis
  proof (cases "generateChart h fr")
    case (Inl e)
    with g agree show ?thesis
      by (simp add: chart_file_def console_error_def)
  next
    case (Inr svg)
    with g agree parts show ?thesis
      by (cases "write_error h (path_join h [chartsDir h, slugify (file_displayName f) @ ''.svg''])")
         (simp_all add: chart_file_def Let_def writeFileSync_def chartsDir_def untimed_entry_def
            console_log_def)
  qed
qed

lemma process_file_rerun:
  assumes bytes: "fs w' (absolutePath f) = fs w (absolutePath f)"
    and agree: "\<forall>p\<in>S. fs w' p = fs w p"
  shows "map_sum id untimed_entry
           (fst (process_file (h\<lparr>performance_now := clk, date_toISOString := d, verbose := v\<rparr>)
                  reg f w')) =
         map_sum id untimed_entry (fst (process_file h reg f w)) \<and>
         (\<forall>p\<in>S.
            fs (snd (process_file (h\<lparr>performance_now := clk, date_toISOString := d, verbose := v\<rparr>)
                  reg f w')) p =
            fs (snd (process_file h reg f w)) p)"
proof -
  let ?h' = "h\<lparr>performance_now := clk, date_toISOString := d, verbose := v\<rparr>"
  obtain r w1 where m: "measure_file h reg f w = (r, w1)"
    by (cases "measure_file h reg f w")
  obtain r' w1' where m': "measure_file ?h' reg f w' = (r', w1')"
    by (cases "measure_file ?h' reg f w'")
  have rel: "map_sum id untimed_file r' = map_sum id untimed_file r"
    using measure_file_rerun [OF bytes, where h = h and clk = clk and d = d and v = v and reg = reg] by (simp add: m m')
  have disk: "fs w1 = fs w" "fs w1' = fs w'"
    using measure_file_disk [of h reg f w] measure_file_disk [of ?h' reg f w']
    by (simp_all add: m m')
  then have agree1: "\<forall>p\<in>S. fs w1' p = fs w1 p"
    using agree by simp
  show ?thesis
  proof (cases r)
    case (Inl e)
    with rel obtain e' where "r' = Inl e'" "e' = e"
      by (cases r') simp_all
    with Inl agree1 show ?thesis
      by (simp add: process_file_def m m')
  next
    case (Inr fr)
    with rel obtain fr' where r': "r' = Inr fr'" and same: "untimed_file fr' = untimed_file fr"
      by (cases r') simp_all
    from chart_file_rerun [OF same agree1, where h = h and clk = clk and d = d and v = v and f = f] show ?thesis
      by (simp add: process_file_def m m' Inr r')
  qed
qed

lemma process_files_rerun:
  assumes "\<forall>f\<in>set files. absolutePath f \<in> S"
    and "\<forall>p\<in>S. fs w' p = fs w p"
    and "map untimed_entry acc' = map untimed_entry acc"
  shows "map_sum id (map untimed_entry)
           (fst (process_files (h\<lparr>performance_now := clk, date_toISOString := d, verbose := v\<rparr>)
                  reg files acc' w')) =
         map_sum id (map untimed_entry) (fst (process_files h reg files acc w))"
  using assms
proof (induction files arbitrary: acc acc' w w')
  case Nil
  then show ?case by simp
next
  case (Cons f files)
  let ?h' = "h\<lparr>performance_now := clk, date_toISOString := d, verbose := v\<rparr>"
  obtain r w1 where p: "process_file h reg f w = (r, w1)"
    by (cases "process_file h reg f w")
  obtain r' w1' where p': "process_file ?h' reg f w' = (r', w1')"
    by (cases "process_file ?h' reg f w'")
  have bytes: "fs w' (absolutePath f) = fs w (absolutePath f)"
    using Cons.prems(1,2) by simp
  have step: "map_sum id untimed_entry r' = map_sum id untimed_entry r \<and>
              (\<forall>p\<in>S. fs w1' p = fs w1 p)"
    using process_file_rerun [OF bytes Cons.prems(2), where h = h and clk = clk and d = d and v = v and reg = reg] by (simp add: p p')
  show ?case
  proof (cases r)
    case (Inl e)
    with step obtain e' where "r' = Inl e'" "e' = e"
      by (cases r') simp_all
    with Inl show ?thesis by (simp add: p p')
  next
    case (Inr entry)
    with step obtain entry' where r': "r' = Inr entry'"
      and same: "untimed_entry entry' = untimed_entry entry"
      by (cases r') simp_all
    have "map_sum id (map untimed_entry)
            (fst (process_files ?h' reg files (acc' @ [entry']) w1')) =
          map_sum id (map untimed_entry) (fst (process_files h reg files (acc @ [entry]) w1))"
    proof (rule Cons.IH)
      show "\<forall>f\<in>set files. absolutePath f \<in> S" using Cons.prems(1) by simp
      show "\<forall>p\<in>S. fs w1' p = fs w1 p" using step by simp
      show "map untimed_entry (acc' @ [entry']) = map untimed_entry (acc @ [entry])"
        using Cons.prems(3) same by simp
    qed
    then show ?thesis
      by (simp only: process_files.simps p p' Inr r' prod.case sum.case)
  qed
qed

text \<open>
  Claim C9. Two runs that differ in their clock, their date and their verbosity: when
  the candidate paths of an artifact exist in the one filesystem exactly when they exist
  in the other, resolution gives the same result (the same absolute path, or the same
  error); when the resolved input files hold the same bytes in both, the loop over the
  artifacts gives the same entries up to the timings (same levels, sizes, ratios, chart
  paths), or stops with the same error.
\<close>

theorem rerun_is_deterministic:
  assumes paths: "\<forall>p\<in>set (candidate_paths h spec). existsSync w' p = existsSync w p"
    and bytes: "\<forall>f\<in>set files. fs w' (absolutePath f) = fs w (absolutePath f)"
  shows "createPackageFile (h\<lparr>performance_now := clk, date_toISOString := d, verbose := v\<rparr>) w' spec =
           createPackageFile h w spec \<and>
         map_sum id (map untimed_entry)
           (fst (process_files (h\<lparr>performance_now := clk, date_toISOString := d, verbose := v\<rparr>)
                  registry files [] w')) =
         map_sum id (map untimed_entry) (fst (process_files h registry files [] w))"
proof -
  have "map_sum id (map untimed_entry)
           (fst (process_files (h\<lparr>performance_now := clk, date_toISOString := d, verbose := v\<rparr>)
                  registry files [] w')) =
         map_sum id (map untimed_entry) (fst (process_files h registry files [] w))"
  proof (rule process_files_rerun)
    show "\<forall>f\<in>set files. absolutePath f \<in> absolutePath ` set files" by simp
    show "\<forall>p\<in>absolutePath ` set files. fs w' p = fs w p" using bytes by simp
    show "map untimed_entry [] = map untimed_entry []" by simp
  qed
  with createPackageFile_same [OF paths] show ?thesis by simp
qed


lemma example_run_disk:
  obtains content where
    "fs (run example_host [short_algorithm] [spec_a, spec_b] example_world) =
       (fs example_world)
         (''/r/charts'' \<mapsto> Dir,
          ''/r/charts/a-x-js.svg'' \<mapsto> File ''<svg/>'',
          ''/r/charts/b-new-css.svg'' \<mapsto> File ''<svg/>'',
          ''/r/README.md'' \<mapsto> File content)"
proof -
  let ?h = example_host and ?reg = "[short_algorithm]"
  define w0 where "w0 = example_world\<lparr>fs := (fs example_world)(''/r/charts'' \<mapsto> Dir)\<rparr>"
  have zstd: "has_zstd ?h"
    by (simp add: example_host_def)
  have files: "create_files ?h example_world [spec_a, spec_b] = Inr [file_a, file_b]"
    by (simp add: resolve_defs example_host_def example_world_def file_a_def file_b_def)
  have dir: "ensure_chartsDir ?h example_world = Inr w0"
    by (simp add: ensure_chartsDir_def chartsDir_def mkdirSync_def existsSync_def w0_def
        example_host_def example_world_def)
  obtain q w1 where loop: "process_files ?h ?reg [file_a, file_b] [] w0 = (q, w1)"
    by (cases "process_files ?h ?reg [file_a, file_b] [] w0")
  have ev: "\<not> isl (fst (process_files ?h ?reg [file_a, file_b] [] w0)) \<and>
      fs (snd (process_files ?h ?reg [file_a, file_b] [] w0)) =
        (fs w0)(''/r/charts/a-x-js.svg'' \<mapsto> File ''<svg/>'',
                ''/r/charts/b-new-css.svg'' \<mapsto> File ''<svg/>'')"
    by (simp add: example_defs short_algorithm_def w0_def Let_def
        slugify_def toLowerCase_def slug_char_def trim_dashes_def)
  then obtain results where q: "q = Inr results"
    using loop by (cases q) simp_all
  have fs1: "fs w1 = (fs w0)(''/r/charts/a-x-js.svg'' \<mapsto> File ''<svg/>'',
                ''/r/charts/b-new-css.svg'' \<mapsto> File ''<svg/>'')"
    using ev loop by simp
  have free: "write_error ?h (readme_path ?h) = None"
    by (simp add: example_host_def)
  define w' where "w' = w1\<lparr>fs := (fs w1)(readme_path ?h \<mapsto>
      File (join [CHR 0x0A] (readmeLines ?h results)))\<rparr>"
  have m: "main ?h ?reg [file_a, file_b] example_world = (Inr (), w')"
    by (simp only: main_def dir sum.case loop q prod.case writeFileSync_def free option.case
        w'_def)
  have whole: "run ?h ?reg [spec_a, spec_b] example_world = w'"
    using zstd by (simp only: run_def files m sum.case prod.case not_True_eq_False if_False)
  have path: "readme_path ?h = ''/r/README.md''"
    by (simp add: readme_path_def example_host_def)
  show ?thesis
  proof (rule that [of "join [CHR 0x0A] (readmeLines ?h results)"])
    show "fs (run ?h ?reg [spec_a, spec_b] example_world) =
       (fs example_world)
         (''/r/charts'' \<mapsto> Dir,
          ''/r/charts/a-x-js.svg'' \<mapsto> File ''<svg/>'',
          ''/r/charts/b-new-css.svg'' \<mapsto> File ''<svg/>'',
          ''/r/README.md'' \<mapsto> File (join [CHR 0x0A] (readmeLines ?h results)))"
      unfolding whole w'_def path by (simp add: fs1 w0_def)
  qed
qed

theorem rerun_is_deterministic_witness:
  "createPackageFile
     (example_host\<lparr>performance_now := (\<lambda>n. 7 + 2 * rat_of_nat n),
        date_toISOString := ''2025-06-01T12:00:00.000Z'', verbose := False\<rparr>)
     (run example_host [short_algorithm] [spec_a, spec_b] example_world) spec_b =
   createPackageFile example_host example_world spec_b \<and>
   map_sum id (map untimed_entry)
     (fst (process_files
        (example_host\<lparr>performance_now := (\<lambda>n. 7 + 2 * rat_of_nat n),
           date_toISOString := ''2025-06-01T12:00:00.000Z'', verbose := False\<rparr>)
        [short_algorithm] [file_a, file_b] []
        (run example_host [short_algorithm] [spec_a, spec_b] example_world))) =
   map_sum id (map untimed_entry)
     (fst (process_files example_host [short_algorithm] [file_a, file_b] [] example_world)) \<and>
   \<not> isl (fst (process_files example_host [short_algorithm] [file_a, file_b] [] example_world))"
proof -
  let ?again = "run example_host [short_algorithm] [spec_a, spec_b] example_world"
  obtain content where disk: "fs ?again =
       (fs example_world)
         (''/r/charts'' \<mapsto> Dir,
          ''/r/charts/a-x-js.svg'' \<mapsto> File ''<svg/>'',
          ''/r/charts/b-new-css.svg'' \<mapsto> File ''<svg/>'',
          ''/r/README.md'' \<mapsto> File content)"
    by (rule example_run_disk)
  have cands: "candidate_paths example_host spec_b =
      [''/r/node_modules/b/old.css'', ''/r/node_modules/b/new.css'']"
    by (simp add: candidate_paths_def spec_b_def candidateList_def name_candidate_def
        List.map_filter_simps example_host_def)
  have paths: "\<forall>p\<in>set (candidate_paths example_host spec_b).
                 existsSync ?again p = existsSync example_world p"
    unfolding cands existsSync_def disk by simp
  have bytes: "\<forall>f\<in>set [file_a, file_b].
                 fs ?again (absolutePath f) = fs example_world (absolutePath f)"
    unfolding disk by (simp add: file_a_def file_b_def)
  have ok: "\<not> isl (fst (process_files example_host [short_algorithm] [file_a, file_b] []
                        example_world))"
    by (simp add: example_defs short_algorithm_def Let_def)
  from rerun_is_deterministic [OF paths bytes] ok show ?thesis
    by blast
qed

section \<open>Completion\<close>

lemma sweep_levels_completes:
  assumes "\<forall>l\<in>set ls. \<exists>c. compress a buf l = Inr c"
  shows "\<exists>ms' w'. sweep_levels h a buf n ls ms w = (Inr ms', w')"
  using assms
proof (induction ls arbitrary: ms w)
  case Nil
  show ?case by simp
next
  case (Cons l ls)
  then obtain c where "compress a buf l = Inr c" by auto
  with Cons show ?case by (simp add: now_def Let_def)
qed

lemma sweep_algorithms_completes:
  assumes "\<forall>a\<in>set reg. \<forall>l\<in>set (levels a). \<exists>c. compress a buf l = Inr c"
  shows "\<exists>rs' w'. sweep_algorithms h buf n reg rs w = (Inr rs', w')"
  using assms
proof (induction reg arbitrary: rs w)
  case Nil
  show ?case by simp
next
  case (Cons a reg)
  then have "\<forall>l\<in>set (levels a). \<exists>c. compress a buf l = Inr c" by simp
  then obtain ms w1 where "sweep_levels h a buf n (levels a) [] w = (Inr ms, w1)"
    using sweep_levels_completes by blast
  with Cons show ?case by simp
qed

lemma measure_file_completes:
  assumes codecs: "\<forall>a\<in>set reg. \<forall>l\<in>set (levels a). \<exists>c. compress a buf l = Inr c"
    and content: "fs w (absolutePath f) = Some (File buf)"
  shows "\<exists>fr w'. measure_file h reg f w = (Inr fr, w')"
proof -
  obtain rs w2 where
    "sweep_algorithms h buf (length buf) reg [] (announced h f (length buf) w) = (Inr rs, w2)"
    using sweep_algorithms_completes [OF codecs] by blast
  then show ?thesis
    by (simp add: measure_file_unfold [OF content])
qed

lemma chart_file_completes:
  assumes render: "generateChart h fr = Inr svg"
    and writes: "write_error h (path_join h [chartsDir h, slugify (file_displayName f) @ ''.svg''])
                   = None"
  shows "\<exists>entry w'. chart_file h f fr w = (Inr entry, w') \<and>
           fs w' = (fs w)(path_join h [chartsDir h, slugify (file_displayName f) @ ''.svg'']
                           \<mapsto> File svg)"
  using assms
  by (simp add: chart_file_def Let_def writeFileSync_def console_log_def)

text \<open>
  The loop over the artifacts does complete when nothing it calls fails: every codec
  returns a buffer, the renderer returns a chart, writes are allowed, and the input files
  are there.
\<close>

lemma process_files_completes:
  assumes codecs: "\<forall>a\<in>set reg. \<forall>buf. \<forall>l\<in>set (levels a). \<exists>c. compress a buf l = Inr c"
    and render: "\<forall>cfg. \<exists>svg. renderToBufferSync h cfg = Inr svg"
    and writes: "\<forall>p. write_error h p = None"
    and present: "\<forall>f\<in>set files. \<exists>buf. fs w (absolutePath f) = Some (File buf)"
  shows "\<exists>results w'. process_files h reg files acc w = (Inr results, w')"
  using present
proof (induction files arbitrary: acc w)
  case Nil
  show ?case by simp
next
  case (Cons f files)
  then obtain buf where content: "fs w (absolutePath f) = Some (File buf)"
    by auto
  have "\<forall>a\<in>set reg. \<forall>l\<in>set (levels a). \<exists>c. compress a buf l = Inr c"
    using codecs by blast
  then obtain fr w1 where m: "measure_file h reg f w = (Inr fr, w1)"
    using measure_file_completes [OF _ content] by blast
  have disk: "fs w1 = fs w"
    using measure_file_disk [of h reg f w] by (simp add: m)
  obtain svg where g: "generateChart h fr = Inr svg"
    using render by (auto simp: generateChart_def)
  obtain entry w2 where c: "chart_file h f fr w1 = (Inr entry, w2)"
    and disk2: "fs w2 = (fs w1)(path_join h [chartsDir h, slugify (file_displayName f) @ ''.svg'']
                           \<mapsto> File svg)"
  proof -
    have "write_error h (path_join h [chartsDir h, slugify (file_displayName f) @ ''.svg''])
            = None"
      using writes by simp
    from chart_file_completes [OF g this, of w1] that show ?thesis
      by (elim exE conjE)
  qed
  have "\<forall>f\<in>set files. \<exists>buf. fs w2 (absolutePath f) = Some (File buf)"
    using Cons.prems by (simp add: disk2 disk)
  from Cons.IH [OF this, of "acc @ [entry]"] show ?case
    by (simp add: process_file_def m c)
qed

end
